theory Spec2Isabelle
  imports Main "HOL-Library.Word"
begin

section \<open>Waste sorter firmware: \<^verbatim>\<open>waste_classification.ino\<close>\<close>

text \<open>
  The sketch is a single-threaded control loop. It is embedded with explicit state
  passing: the two file-scope globals are fields of a record, every call that reaches
  hardware or a library appends one event to a chronological trace, and the inputs that
  come from outside (sensor level, link status, camera, HTTP result, JSON document) are
  parameters.

  Integers: \<^verbatim>\<open>int\<close> and \<open>long\<close> values of the sketch stay within a few
  thousand (slot indices below 5, at most 2 slots of 409 steps), so they are modelled as
  \<open>int\<close>; \<^verbatim>\<open>unsigned long\<close> time stamps are 32 bits wide on the ESP32 and wrap,
  so they are \<open>32 word\<close>.
\<close>

subsection \<open>Constants (lines 27-42)\<close>

text \<open>C's \<^verbatim>\<open>/\<close> on \<^verbatim>\<open>int\<close> truncates towards zero.\<close>

definition c_div :: "int \<Rightarrow> int \<Rightarrow> int" where
  "c_div a b = sgn a * sgn b * (\<bar>a\<bar> div \<bar>b\<bar>)"

definition stepsPerRevolution :: int where
  "stepsPerRevolution = 2048"

definition wasteCategories :: int where
  "wasteCategories = 5"

definition stepsPerSlot :: int where
  "stepsPerSlot = c_div stepsPerRevolution wasteCategories"

definition wasteLabels :: "string list" where
  "wasteLabels = [''Plastic'', ''Paper'', ''Organic'', ''Metal'', ''Glass'']"

definition irDebounceMs :: "32 word" where
  "irDebounceMs = 200"

definition trapdoorOpenMs :: nat where
  "trapdoorOpenMs = 900"

definition stepperSpeedRPM :: int where
  "stepperSpeedRPM = 15"

definition servoClosedAngle :: int where
  "servoClosedAngle = 0"

definition servoOpenAngle :: int where
  "servoOpenAngle = 90"

subsection \<open>Shortest rotation around the carousel (\<^verbatim>\<open>sortWaste\<close>, lines 245-252)\<close>

text \<open>
  The sketch computes the signed slot delta inline, with the category count a
  compile-time constant. The computation is given its own name here, with the count as
  third argument; \<open>sortWaste\<close> below calls it with \<open>wasteCategories\<close>.
\<close>

definition planMove :: "int \<Rightarrow> int \<Rightarrow> int \<Rightarrow> int" where
  "planMove current target totalBins =
     (let delta = target - current in
      if \<bar>delta\<bar> > c_div totalBins 2 then
        (if delta > 0 then delta - totalBins else delta + totalBins)
      else delta)"

subsection \<open>State, inputs and events\<close>

datatype level = LOW | HIGH

text \<open>
  One tag per \<^verbatim>\<open>Serial.print\<close> call site of the modelled code (the printed
  arguments are left out):
  \<open>MsgConnecting\<close> l.127, \<open>MsgDot\<close> l.130, \<open>MsgNewline\<close> l.133,
  \<open>MsgWiFiConnected\<close> l.135-136, \<open>MsgConnectionFailed\<close> l.139,
  \<open>MsgSetupComplete\<close> l.154, \<open>MsgIrDetected\<close> l.165,
  \<open>MsgWiFiDisconnected\<close> l.175, \<open>MsgWiFiStillDown\<close> l.183,
  \<open>MsgWiFiReconnected\<close> l.187, \<open>MsgCaptureFailed\<close> l.195,
  \<open>MsgHttpResponse\<close> l.208, \<open>MsgJsonParseFailed\<close> l.212,
  \<open>MsgUnknownLabel\<close> l.227, \<open>MsgMappedLabel\<close> l.229,
  \<open>MsgHttpPostFailed\<close> l.233, \<open>MsgSortingTo\<close> l.241, \<open>MsgStepping\<close> l.256,
  \<open>MsgAlreadyAtTarget\<close> l.260, \<open>MsgWasteSorted\<close> l.268.
\<close>

datatype message =
    MsgConnecting | MsgDot | MsgNewline | MsgWiFiConnected | MsgConnectionFailed
  | MsgSetupComplete | MsgIrDetected | MsgWiFiDisconnected | MsgWiFiStillDown
  | MsgWiFiReconnected | MsgCaptureFailed | MsgHttpResponse | MsgJsonParseFailed
  | MsgUnknownLabel | MsgMappedLabel | MsgHttpPostFailed | MsgSortingTo | MsgStepping
  | MsgAlreadyAtTarget | MsgWasteSorted

text \<open>
  The calls that leave the sketch, in the order they are made. \<open>SlotWrite v\<close> records
  the assignment \<^verbatim>\<open>currentSlot = v\<close>, so that its place among the hardware
  actions can be stated.
\<close>

datatype event =
    Serial message
  | Buzzer level
  | Delay nat
  | CarouselSetSpeed int
  | CarouselStep int
  | TrapdoorSetPeriod
  | TrapdoorAttach
  | TrapdoorWrite int
  | PinModeIr
  | PinModeBuzzer
  | WiFiMode
  | WiFiBegin
  | WiFiSetSleep
  | WiFiDisconnect
  | WiFiReconnect
  | CameraFbGet
  | CameraFbReturn
  | HttpBegin
  | HttpAddHeader
  | HttpPost
  | HttpGetString
  | HttpEnd
  | SlotWrite int

text \<open>
  \<open>currentSlot\<close> and \<open>lastIrTime\<close> are the globals of lines 45-46. \<open>clock\<close> is the
  time since boot in milliseconds (\<^verbatim>\<open>millis()\<close> returns it modulo \<open>2^32\<close>);
  \<open>statusReads\<close> counts the calls of \<^verbatim>\<open>WiFi.status()\<close> made so far.
\<close>

record sorter =
  currentSlot :: int
  lastIrTime :: "32 word"
  clock :: nat
  statusReads :: nat
  trace :: "event list"

text \<open>
  What \<^verbatim>\<open>deserializeJson\<close> and \<^verbatim>\<open>doc["label"]\<close> make of the response
  body: a deserialization error, or a document whose \<^verbatim>\<open>label\<close> member converts
  to a \<^verbatim>\<open>const char*\<close> (\<open>Some\<close>) or is absent or not a string (\<open>None\<close>, the null
  pointer).
\<close>

datatype response = Malformed | Document "string option"

text \<open>
  The outside world during one cycle: \<open>linkUp n\<close> tells whether the \<open>n\<close>-th call of
  \<^verbatim>\<open>WiFi.status()\<close> returns \<^verbatim>\<open>WL_CONNECTED\<close>, \<open>capture\<close> whether
  \<^verbatim>\<open>esp_camera_fb_get()\<close> returns a frame, \<open>httpCode\<close> is the result of
  \<^verbatim>\<open>http.POST\<close>.
\<close>

record world =
  linkUp :: "nat \<Rightarrow> bool"
  capture :: bool
  httpCode :: int
  response :: response

text \<open>Undefined behaviour of the C program: \<^verbatim>\<open>strcmp\<close> on a null pointer.\<close>

datatype fault = NullStrcmp

text \<open>The exit through which \<^verbatim>\<open>handleWasteDetected\<close> returns.\<close>

datatype outcome =
    ConnectivityTimeout | CaptureError | NetworkError | ParseError | UnknownLabel | Sorted

subsection \<open>Primitives\<close>

definition emit :: "event \<Rightarrow> sorter \<Rightarrow> sorter" where
  "emit e s = s\<lparr>trace := trace s @ [e]\<rparr>"

text \<open>\<^verbatim>\<open>delay(ms)\<close> blocks for \<open>ms\<close> milliseconds; only delays advance the clock.\<close>

definition delay :: "nat \<Rightarrow> sorter \<Rightarrow> sorter" where
  "delay ms s = emit (Delay ms) (s\<lparr>clock := clock s + ms\<rparr>)"

definition millis :: "sorter \<Rightarrow> 32 word" where
  "millis s = of_nat (clock s)"

definition WiFi_status :: "world \<Rightarrow> sorter \<Rightarrow> bool \<times> sorter" where
  "WiFi_status w s = (linkUp w (statusReads s), s\<lparr>statusReads := Suc (statusReads s)\<rparr>)"

definition setCurrentSlot :: "int \<Rightarrow> sorter \<Rightarrow> sorter" where
  "setCurrentSlot v s = emit (SlotWrite v) (s\<lparr>currentSlot := v\<rparr>)"

text \<open>
  \<^verbatim>\<open>strcmp\<close> on two non-null C strings: zero exactly for equal strings, otherwise
  the sign of the first differing byte pair (a proper prefix is smaller).
\<close>

fun strcmp :: "string \<Rightarrow> string \<Rightarrow> int" where
  "strcmp [] [] = 0"
| "strcmp [] (y # ys) = - 1"
| "strcmp (x # xs) [] = 1"
| "strcmp (x # xs) (y # ys) =
     (if x = y then strcmp xs ys
      else if (of_char x :: nat) < of_char y then - 1 else 1)"

subsection \<open>Feedback emitter (lines 48-65)\<close>

text \<open>
  The parameter \<^verbatim>\<open>times\<close> of \<^verbatim>\<open>beep\<close> is called \<open>ntimes\<close>. The durations
  are the non-negative constants of the call sites, hence \<open>nat\<close>.
\<close>

function beep_loop :: "int \<Rightarrow> int \<Rightarrow> nat \<Rightarrow> nat \<Rightarrow> sorter \<Rightarrow> sorter" where
  "beep_loop i ntimes durationMs gapMs s =
     (if i < ntimes then
        beep_loop (i + 1) ntimes durationMs gapMs
          ((if i < ntimes - 1 then delay gapMs else id)
             (emit (Buzzer LOW) (delay durationMs (emit (Buzzer HIGH) s))))
      else s)"
  by pat_completeness auto
termination
  by (relation "measure (\<lambda>(i, ntimes, d, g, s). nat (ntimes - i))") auto

definition beep :: "int \<Rightarrow> nat \<Rightarrow> nat \<Rightarrow> sorter \<Rightarrow> sorter" where
  "beep ntimes durationMs gapMs s = beep_loop 0 ntimes durationMs gapMs s"

text \<open>\<^verbatim>\<open>beep(1, 300)\<close> takes the default gap of 100 ms.\<close>

definition beepWiFiConnected :: "sorter \<Rightarrow> sorter" where
  "beepWiFiConnected s = beep 1 150 100 (delay 150 (beep 1 300 100 s))"

definition beepWiFiFailed :: "sorter \<Rightarrow> sorter" where
  "beepWiFiFailed s = beep 3 200 150 s"

subsection \<open>Start-up (\<^verbatim>\<open>setup\<close>, lines 122-154)\<close>

text \<open>The globals as their initialisers leave them (lines 45-46), at time 0.\<close>

definition boot :: sorter where
  "boot = \<lparr>currentSlot = 0, lastIrTime = 0, clock = 0, statusReads = 0, trace = []\<rparr>"

text \<open>The wait of lines 129-132: up to 10 s, a dot and 500 ms per round.\<close>

function setupWait :: "world \<Rightarrow> 32 word \<Rightarrow> sorter \<Rightarrow> sorter" where
  "setupWait w start s =
     (case WiFi_status w s of (up, s1) \<Rightarrow>
        if \<not> up \<and> millis s1 - start < 10000
        then setupWait w start (delay 500 (emit (Serial MsgDot) s1))
        else s1)"
  by pat_completeness auto
termination
proof (relation "measure (\<lambda>(w, start, s). 10000 - unat (millis s - start))", goal_cases)
  case 1
  show ?case by simp
next
  case (2 w start s up s1)
  then have s1: "s1 = s\<lparr>statusReads := Suc (statusReads s)\<rparr>"
    by (simp add: WiFi_status_def)
  have m: "millis s1 = millis s"
    by (simp add: s1 millis_def)
  from 2 have lt: "unat (millis s - start) < 10000"
    by (simp add: m word_less_nat_alt)
  have eq: "millis (delay 500 (emit (Serial MsgDot) s1)) - start = (millis s - start) + 500"
    by (simp add: s1 millis_def delay_def emit_def)
  have "unat ((millis s - start) + (500 :: 32 word)) = unat (millis s - start) + 500"
    using lt by (simp add: unat_add_lem [THEN iffD1])
  then have "unat (millis (delay 500 (emit (Serial MsgDot) s1)) - start)
             = unat (millis s - start) + 500"
    by (simp only: eq)
  then show ?case
    using lt by simp
qed

text \<open>
  \<^verbatim>\<open>setup\<close>, named \<open>sketch_setup\<close> here. Lines 68-120 (serial port and camera
  bring-up) touch none of the modelled state and are left out.
\<close>

definition sketch_setup :: "world \<Rightarrow> sorter \<Rightarrow> sorter" where
  "sketch_setup w s0 =
     (let s = emit (Serial MsgConnecting) (emit WiFiSetSleep (emit WiFiBegin (emit WiFiMode s0)));
          start = millis s;
          s = emit (Serial MsgNewline) (setupWait w start s)
      in case WiFi_status w s of (up, s) \<Rightarrow>
        let s = (if up then beepWiFiConnected (emit (Serial MsgWiFiConnected) s)
                 else beepWiFiFailed (emit (Serial MsgConnectionFailed) s));
            s = emit TrapdoorAttach (emit TrapdoorSetPeriod (emit (CarouselSetSpeed stepperSpeedRPM) s));
            s = emit (TrapdoorWrite servoClosedAngle) (emit PinModeIr s);
            s = emit (Buzzer LOW) (emit PinModeBuzzer s);
            s = setCurrentSlot 0 s
        in emit (Serial MsgSetupComplete) s)"

subsection \<open>Carousel and trapdoor (\<^verbatim>\<open>sortWaste\<close>, lines 240-270)\<close>

definition sortWaste :: "int \<Rightarrow> sorter \<Rightarrow> sorter" where
  "sortWaste label s0 =
     (let s = beep 1 300 100 (emit (Serial MsgSortingTo) s0);
          delta = planMove (currentSlot s) label wasteCategories;
          stepsToMove = delta * stepsPerSlot;
          s = (if stepsToMove \<noteq> 0
               then delay 100 (emit (CarouselStep stepsToMove) (emit (Serial MsgStepping) s))
               else emit (Serial MsgAlreadyAtTarget) s);
          s = emit (TrapdoorWrite servoOpenAngle) s;
          s = delay trapdoorOpenMs s;
          s = emit (TrapdoorWrite servoClosedAngle) s;
          s = setCurrentSlot label s;
          s = emit (Serial MsgWasteSorted) s
      in beep 3 80 50 s)"

subsection \<open>One detection cycle (\<^verbatim>\<open>handleWasteDetected\<close>, lines 172-238)\<close>

text \<open>The wait of lines 179-181: up to 5 s, 200 ms per round.\<close>

function reconnectWait :: "world \<Rightarrow> 32 word \<Rightarrow> sorter \<Rightarrow> sorter" where
  "reconnectWait w waitStart s =
     (case WiFi_status w s of (up, s1) \<Rightarrow>
        if \<not> up \<and> millis s1 - waitStart < 5000 then reconnectWait w waitStart (delay 200 s1)
        else s1)"
  by pat_completeness auto
termination
proof (relation "measure (\<lambda>(w, waitStart, s). 5000 - unat (millis s - waitStart))", goal_cases)
  case 1
  show ?case by simp
next
  case (2 w waitStart s up s1)
  then have s1: "s1 = s\<lparr>statusReads := Suc (statusReads s)\<rparr>"
    by (simp add: WiFi_status_def)
  have m: "millis s1 = millis s"
    by (simp add: s1 millis_def)
  from 2 have lt: "unat (millis s - waitStart) < 5000"
    by (simp add: m word_less_nat_alt)
  have eq: "millis (delay 200 s1) - waitStart = (millis s - waitStart) + 200"
    by (simp add: s1 millis_def delay_def emit_def)
  have "unat ((millis s - waitStart) + (200 :: 32 word)) = unat (millis s - waitStart) + 200"
    using lt by (simp add: unat_add_lem [THEN iffD1])
  then have "unat (millis (delay 200 s1) - waitStart) = unat (millis s - waitStart) + 200"
    by (simp only: eq)
  then show ?case
    using lt by simp
qed

text \<open>
  Lines 174-190, the block that makes sure the link is up. The sketch has it inline; its
  \<^verbatim>\<open>return\<close> at line 185 is the result \<open>False\<close> here, falling through to the
  capture is \<open>True\<close>.
\<close>

definition ensureConnected :: "world \<Rightarrow> sorter \<Rightarrow> bool \<times> sorter" where
  "ensureConnected w s =
     (case WiFi_status w s of (up, s1) \<Rightarrow>
        if \<not> up then
          (let s2 = emit WiFiReconnect
                      (emit WiFiDisconnect (emit (Serial MsgWiFiDisconnected) s1));
               waitStart = millis s2
           in case WiFi_status w (reconnectWait w waitStart s2) of (up', s3) \<Rightarrow>
                if \<not> up' then (False, beepWiFiFailed (emit (Serial MsgWiFiStillDown) s3))
                else (True, beepWiFiConnected (emit (Serial MsgWiFiReconnected) s3)))
        else (True, s1))"

text \<open>
  The matching loop of lines 216-224, from index \<open>i\<close> on. It returns the value
  \<^verbatim>\<open>labelIndex\<close> has after the loop. The index starts at 0 and stays below
  \<open>wasteCategories\<close>, the length of the table.
\<close>

function labelLoop :: "string option \<Rightarrow> int \<Rightarrow> fault + int" where
  "labelLoop predictedLabel i =
     (if i < wasteCategories then
        (case predictedLabel of
           None \<Rightarrow> Inl NullStrcmp
         | Some l \<Rightarrow>
             if strcmp l (wasteLabels ! nat i) = 0 then Inr i
             else labelLoop predictedLabel (i + 1))
      else Inr (- 1))"
  by pat_completeness auto
termination
  by (relation "measure (\<lambda>(p, i). nat (wasteCategories - i))") auto

text \<open>Lines 236-237, which the returns at lines 185, 196 and 213 do not reach.\<close>

definition releaseFrame :: "sorter \<Rightarrow> sorter" where
  "releaseFrame s = emit CameraFbReturn (emit HttpEnd s)"

text \<open>
  The result names the exit taken and gives the state there. With a null label the
  matching loop is undefined, and the cycle has no state to return.
\<close>

definition handleWasteDetected :: "world \<Rightarrow> sorter \<Rightarrow> fault + outcome \<times> sorter" where
  "handleWasteDetected w s =
     (case ensureConnected w s of (connected, s1) \<Rightarrow>
        if \<not> connected then Inr (ConnectivityTimeout, s1)
        else
          let s2 = emit CameraFbGet s1 in
          if \<not> capture w then Inr (CaptureError, emit (Serial MsgCaptureFailed) s2)
          else
            let s3 = emit HttpPost (emit HttpAddHeader (emit HttpBegin s2)) in
            if httpCode w > 0 then
              (let s4 = emit (Serial MsgHttpResponse) (emit HttpGetString s3) in
               case response w of
                 Malformed \<Rightarrow> Inr (ParseError, emit (Serial MsgJsonParseFailed) s4)
               | Document predictedLabel \<Rightarrow>
                   (case labelLoop predictedLabel 0 of
                      Inl f \<Rightarrow> Inl f
                    | Inr labelIndex \<Rightarrow>
                        if labelIndex = - 1 then
                          Inr (UnknownLabel, releaseFrame (emit (Serial MsgUnknownLabel) s4))
                        else
                          Inr (Sorted,
                               releaseFrame
                                 (sortWaste labelIndex (emit (Serial MsgMappedLabel) s4)))))
            else Inr (NetworkError, releaseFrame (emit (Serial MsgHttpPostFailed) s3)))"

subsection \<open>Detection loop (\<^verbatim>\<open>loop\<close>, lines 158-170)\<close>

definition loop :: "world \<Rightarrow> level \<Rightarrow> sorter \<Rightarrow> fault + sorter" where
  "loop w irVal s =
     (if irVal = LOW then
        (if millis s - lastIrTime s > irDebounceMs then
           (case handleWasteDetected w
                   (beep 2 100 50 (emit (Serial MsgIrDetected) (s\<lparr>lastIrTime := millis s\<rparr>))) of
              Inl f \<Rightarrow> Inl f
            | Inr (oc, s') \<Rightarrow> Inr s')
         else Inr s)
      else Inr s)"

text \<open>Time that passes between two calls of \<^verbatim>\<open>loop\<close>.\<close>

definition idle :: "nat \<Rightarrow> sorter \<Rightarrow> sorter" where
  "idle d s = s\<lparr>clock := clock s + d\<rparr>"

text \<open>
  The firmware after \<open>sketch_setup\<close>: \<^verbatim>\<open>loop\<close> called over and over, each call after
  some idle time, with a sensor level and a world of its own. A fault ends the run.
\<close>

fun run :: "(nat \<times> level \<times> world) list \<Rightarrow> sorter \<Rightarrow> fault + sorter" where
  "run [] s = Inr s"
| "run ((d, irVal, w) # rest) s =
     (case loop w irVal (idle d s) of Inl f \<Rightarrow> Inl f | Inr s' \<Rightarrow> run rest s')"

subsection \<open>Vocabulary of the properties\<close>

text \<open>The events a step from \<open>s\<close> to \<open>s'\<close> has added to the trace.\<close>

definition newEvents :: "sorter \<Rightarrow> sorter \<Rightarrow> event list" where
  "newEvents s s' = drop (length (trace s)) (trace s')"

text \<open>The motor steps commanded in a trace, signed.\<close>

fun stepsOf :: "event \<Rightarrow> int" where
  "stepsOf (CarouselStep n) = n"
| "stepsOf _ = 0"

definition motorSteps :: "event list \<Rightarrow> int" where
  "motorSteps es = sum_list (map stepsOf es)"

text \<open>A sequence of sorts, and the slot deltas planned along it.\<close>

fun sortAll :: "int list \<Rightarrow> sorter \<Rightarrow> sorter" where
  "sortAll [] s = s"
| "sortAll (label # labels) s = sortAll labels (sortWaste label s)"

fun plannedDeltas :: "int \<Rightarrow> int list \<Rightarrow> int list" where
  "plannedDeltas current [] = []"
| "plannedDeltas current (label # labels) =
     planMove current label wasteCategories # plannedDeltas label labels"

text \<open>
  The events only \<^verbatim>\<open>sortWaste\<close> makes: its first log line, the stepper and
  trapdoor commands, and the write of \<open>currentSlot\<close>.
\<close>

fun sortEvent :: "event \<Rightarrow> bool" where
  "sortEvent (CarouselStep n) = True"
| "sortEvent (TrapdoorWrite a) = True"
| "sortEvent (SlotWrite v) = True"
| "sortEvent (Serial MsgSortingTo) = True"
| "sortEvent e = False"

text \<open>The range invariant of the position: the slot, and every value ever written to it.\<close>

fun slotWriteOk :: "event \<Rightarrow> bool" where
  "slotWriteOk (SlotWrite v) = (0 \<le> v \<and> v < wasteCategories)"
| "slotWriteOk e = True"

definition slotInv :: "sorter \<Rightarrow> bool" where
  "slotInv s \<longleftrightarrow>
     0 \<le> currentSlot s \<and> currentSlot s < wasteCategories \<and> list_all slotWriteOk (trace s)"

subsection \<open>Example inputs\<close>

definition linkAlwaysUp :: "nat \<Rightarrow> bool" where
  "linkAlwaysUp n = True"

definition linkAlwaysDown :: "nat \<Rightarrow> bool" where
  "linkAlwaysDown n = False"

text \<open>A world with the link up and a frame captured; the HTTP result and the body vary.\<close>

definition exampleWorld :: "int \<Rightarrow> response \<Rightarrow> world" where
  "exampleWorld code r = \<lparr>linkUp = linkAlwaysUp, capture = True, httpCode = code, response = r\<rparr>"

text \<open>A world whose link never comes up.\<close>

definition offlineWorld :: world where
  "offlineWorld =
     \<lparr>linkUp = linkAlwaysDown, capture = True, httpCode = 200, response = Malformed\<rparr>"

text \<open>A world whose link is down for the first three status reads and up from then on.\<close>

definition linkUpFrom :: "nat \<Rightarrow> nat \<Rightarrow> bool" where
  "linkUpFrom m n = (m \<le> n)"

definition recoveringWorld :: world where
  "recoveringWorld =
     \<lparr>linkUp = linkUpFrom 3, capture = True, httpCode = 200, response = Malformed\<rparr>"

text \<open>The state 1000 ms after boot, with \<open>sketch_setup\<close> done on a link that is up.\<close>

definition exampleStart :: sorter where
  "exampleStart = idle 400 (sketch_setup (exampleWorld 200 Malformed) boot)"

text \<open>
  The state after a detection at \<open>exampleStart\<close> whose response does not parse, and the
  state after one whose response is the label \<open>Metal\<close>.
\<close>

definition exampleFirst :: sorter where
  "exampleFirst =
     \<lparr>currentSlot = 0, lastIrTime = 1000, clock = 1250, statusReads = 3,
        trace = [WiFiMode, WiFiBegin, WiFiSetSleep, Serial MsgConnecting, Serial MsgNewline,
                 Serial MsgWiFiConnected, Buzzer HIGH, Delay 300, Buzzer LOW, Delay 150,
                 Buzzer HIGH, Delay 150, Buzzer LOW, CarouselSetSpeed 15, TrapdoorSetPeriod,
                 TrapdoorAttach, PinModeIr, TrapdoorWrite 0, PinModeBuzzer, Buzzer LOW,
                 SlotWrite 0, Serial MsgSetupComplete,
                 Serial MsgIrDetected, Buzzer HIGH, Delay 100, Buzzer LOW, Delay 50,
                 Buzzer HIGH, Delay 100, Buzzer LOW,
                 CameraFbGet, HttpBegin, HttpAddHeader, HttpPost, HttpGetString,
                 Serial MsgHttpResponse, Serial MsgJsonParseFailed]\<rparr>"

text \<open>
  The same detection 50 ms before \<^verbatim>\<open>millis()\<close> wraps around: the state
  \<open>2^32 - 50\<close> ms after boot, and the state after the detection.
\<close>

definition wrapStart :: sorter where
  "wrapStart = idle 4294966646 (sketch_setup (exampleWorld 200 Malformed) boot)"

definition wrapFirst :: sorter where
  "wrapFirst = exampleFirst\<lparr>lastIrTime := 4294967246, clock := 4294967496\<rparr>"

definition exampleAfterMetal :: sorter where
  "exampleAfterMetal =
     \<lparr>currentSlot = 3, lastIrTime = 1000, clock = 2890, statusReads = 3,
        trace = [WiFiMode, WiFiBegin, WiFiSetSleep, Serial MsgConnecting, Serial MsgNewline,
                 Serial MsgWiFiConnected, Buzzer HIGH, Delay 300, Buzzer LOW, Delay 150,
                 Buzzer HIGH, Delay 150, Buzzer LOW, CarouselSetSpeed 15, TrapdoorSetPeriod,
                 TrapdoorAttach, PinModeIr, TrapdoorWrite 0, PinModeBuzzer, Buzzer LOW,
                 SlotWrite 0, Serial MsgSetupComplete,
                 Serial MsgIrDetected, Buzzer HIGH, Delay 100, Buzzer LOW, Delay 50,
                 Buzzer HIGH, Delay 100, Buzzer LOW,
                 CameraFbGet, HttpBegin, HttpAddHeader, HttpPost, HttpGetString,
                 Serial MsgHttpResponse, Serial MsgMappedLabel,
                 Serial MsgSortingTo, Buzzer HIGH, Delay 300, Buzzer LOW,
                 Serial MsgStepping, CarouselStep (- 818), Delay 100,
                 TrapdoorWrite 90, Delay 900, TrapdoorWrite 0, SlotWrite 3,
                 Serial MsgWasteSorted, Buzzer HIGH, Delay 80, Buzzer LOW, Delay 50,
                 Buzzer HIGH, Delay 80, Buzzer LOW, Delay 50, Buzzer HIGH, Delay 80, Buzzer LOW,
                 HttpEnd, CameraFbReturn]\<rparr>"

section \<open>Properties\<close>

declare beep_loop.simps [simp del] reconnectWait.simps [simp del] setupWait.simps [simp del]
  labelLoop.simps [simp del]

subsection \<open>Primitives and feedback patterns\<close>

lemma emit_fields [simp]:
  "trace (emit e s) = trace s @ [e]" "currentSlot (emit e s) = currentSlot s"
  "lastIrTime (emit e s) = lastIrTime s" "clock (emit e s) = clock s"
  "statusReads (emit e s) = statusReads s"
  by (simp_all add: emit_def)

lemma delay_fields [simp]:
  "trace (delay d s) = trace s @ [Delay d]" "currentSlot (delay d s) = currentSlot s"
  "lastIrTime (delay d s) = lastIrTime s" "clock (delay d s) = clock s + d"
  "statusReads (delay d s) = statusReads s"
  by (simp_all add: delay_def)

lemma setCurrentSlot_fields [simp]:
  "trace (setCurrentSlot v s) = trace s @ [SlotWrite v]" "currentSlot (setCurrentSlot v s) = v"
  "lastIrTime (setCurrentSlot v s) = lastIrTime s" "clock (setCurrentSlot v s) = clock s"
  "statusReads (setCurrentSlot v s) = statusReads s"
  by (simp_all add: setCurrentSlot_def)

lemma newEvents_append: "trace s' = trace s @ es \<Longrightarrow> newEvents s s' = es"
  by (simp add: newEvents_def)

lemma beep_1: "beep 1 d g s = emit (Buzzer LOW) (delay d (emit (Buzzer HIGH) s))"
  by (simp add: beep_def beep_loop.simps)

lemma beep_2: "beep 2 d g s =
  emit (Buzzer LOW) (delay d (emit (Buzzer HIGH)
    (delay g (emit (Buzzer LOW) (delay d (emit (Buzzer HIGH) s))))))"
  by (simp add: beep_def beep_loop.simps)

lemma beep_3: "beep 3 d g s =
  emit (Buzzer LOW) (delay d (emit (Buzzer HIGH)
    (delay g (emit (Buzzer LOW) (delay d (emit (Buzzer HIGH)
      (delay g (emit (Buzzer LOW) (delay d (emit (Buzzer HIGH) s))))))))))"
  by (simp add: beep_def beep_loop.simps)

subsection \<open>Motion planning\<close>

lemma c_div_pos: "0 \<le> a \<Longrightarrow> 0 < b \<Longrightarrow> c_div a b = a div b"
  by (cases "a = 0") (simp_all add: c_div_def)

text \<open>
  Claim C1. For current and target slot in \<open>[0, N)\<close>, the planning step takes
  \<open>delta = target - current\<close> and, when \<open>\<bar>delta\<bar> > N / 2\<close>, replaces it by
  \<open>delta - N\<close> (positive delta) or \<open>delta + N\<close> (otherwise); the result has
  \<open>\<bar>delta\<bar> \<le> N / 2\<close> and \<open>(current + delta) mod N = target\<close>, with \<open>mod\<close> the
  mathematical remainder in \<open>[0, N)\<close>.
\<close>

theorem planMove_shortest_path:
  assumes "0 < N" and "0 \<le> current" and "current < N" and "0 \<le> target" and "target < N"
  shows "planMove current target N =
           (if \<bar>target - current\<bar> > N div 2
            then (if target - current > 0 then target - current - N else target - current + N)
            else target - current)
         \<and> \<bar>planMove current target N\<bar> \<le> N div 2
         \<and> (current + planMove current target N) mod N = target"
proof -
  have half: "c_div N 2 = N div 2"
    using assms(1) by (simp add: c_div_pos)
  have shape: "planMove current target N =
           (if \<bar>target - current\<bar> > N div 2
            then (if target - current > 0 then target - current - N else target - current + N)
            else target - current)"
    by (simp add: planMove_def half Let_def)
  have bound: "\<bar>planMove current target N\<bar> \<le> N div 2"
    unfolding shape using assms by (auto split: if_splits)
  have "(current + planMove current target N) mod N = target mod N"
    unfolding shape by (auto simp: mod_diff_right_eq algebra_simps)
  moreover have "target mod N = target"
    using assms by simp
  ultimately show ?thesis
    using shape bound by simp
qed

theorem planMove_shortest_path_witness:
  "planMove 0 3 wasteCategories = - 2 \<and> \<bar>planMove 0 3 wasteCategories\<bar> \<le> wasteCategories div 2
   \<and> (0 + planMove 0 3 wasteCategories) mod wasteCategories = 3"
  using planMove_shortest_path [of wasteCategories 0 3]
  by (simp add: wasteCategories_def)

lemma planMove_same: "0 \<le> N \<Longrightarrow> planMove k k N = 0"
  by (simp add: planMove_def c_div_def sgn_if)

lemma stepsPerSlot_409: "stepsPerSlot = 409"
  by (simp add: stepsPerSlot_def stepsPerRevolution_def wasteCategories_def c_div_def)

subsection \<open>The sort routine\<close>

lemma sortWaste_trace:
  "trace (sortWaste label s) =
     trace s @ [Serial MsgSortingTo, Buzzer HIGH, Delay 300, Buzzer LOW]
     @ (if planMove (currentSlot s) label wasteCategories \<noteq> 0
        then [Serial MsgStepping,
              CarouselStep (planMove (currentSlot s) label wasteCategories * stepsPerSlot),
              Delay 100]
        else [Serial MsgAlreadyAtTarget])
     @ [TrapdoorWrite servoOpenAngle, Delay trapdoorOpenMs, TrapdoorWrite servoClosedAngle,
        SlotWrite label, Serial MsgWasteSorted,
        Buzzer HIGH, Delay 80, Buzzer LOW, Delay 50,
        Buzzer HIGH, Delay 80, Buzzer LOW, Delay 50,
        Buzzer HIGH, Delay 80, Buzzer LOW]"
  by (simp add: sortWaste_def Let_def beep_1 beep_3 stepsPerSlot_409)

lemma sortWaste_fields [simp]:
  "currentSlot (sortWaste label s) = label"
  "lastIrTime (sortWaste label s) = lastIrTime s"
  "statusReads (sortWaste label s) = statusReads s"
  by (simp_all add: sortWaste_def Let_def beep_1 beep_3)

text \<open>
  Claim C7. Every run of the sort routine performs, in this order: the sort-started beep
  (one pulse of 300 ms); if the delta is nonzero, the rotation command followed by the
  100 ms settle delay; trapdoor open, 900 ms dwell, trapdoor closed; then the write of
  the target to \<open>currentSlot\<close>; last the sort-complete beeps (three pulses of 80 ms,
  50 ms apart). The write of the position is the only one, and it comes after the
  rotation and the gate cycle. The calls are sequential: each returns before the next
  event of the trace is made.
\<close>

theorem sortWaste_strict_order:
  "trace (sortWaste label s) =
     trace s @ [Serial MsgSortingTo, Buzzer HIGH, Delay 300, Buzzer LOW]
     @ (if planMove (currentSlot s) label wasteCategories \<noteq> 0
        then [Serial MsgStepping,
              CarouselStep (planMove (currentSlot s) label wasteCategories * stepsPerSlot),
              Delay 100]
        else [Serial MsgAlreadyAtTarget])
     @ [TrapdoorWrite servoOpenAngle, Delay 900, TrapdoorWrite servoClosedAngle,
        SlotWrite label, Serial MsgWasteSorted,
        Buzzer HIGH, Delay 80, Buzzer LOW, Delay 50,
        Buzzer HIGH, Delay 80, Buzzer LOW, Delay 50,
        Buzzer HIGH, Delay 80, Buzzer LOW]
   \<and> currentSlot (sortWaste label s) = label"
  by (simp add: sortWaste_trace trapdoorOpenMs_def)

text \<open>
  Claim C3. Planning a move from a slot to itself gives delta 0, for every slot \<open>k\<close>
  and every category count \<open>N\<close>; and a sort whose delta is 0 commands no rotation (no
  stepper call, no settle delay) while the trapdoor still opens, dwells and closes.
\<close>

theorem zero_delta_no_rotation:
  "(0 < N \<longrightarrow> planMove k k N = 0)
   \<and> (planMove (currentSlot s) label wasteCategories = 0 \<longrightarrow>
        newEvents s (sortWaste label s) =
          [Serial MsgSortingTo, Buzzer HIGH, Delay 300, Buzzer LOW, Serial MsgAlreadyAtTarget,
           TrapdoorWrite servoOpenAngle, Delay trapdoorOpenMs, TrapdoorWrite servoClosedAngle,
           SlotWrite label, Serial MsgWasteSorted,
           Buzzer HIGH, Delay 80, Buzzer LOW, Delay 50,
           Buzzer HIGH, Delay 80, Buzzer LOW, Delay 50,
           Buzzer HIGH, Delay 80, Buzzer LOW]
        \<and> (\<forall>n. CarouselStep n \<notin> set (newEvents s (sortWaste label s)))
        \<and> Delay 100 \<notin> set (newEvents s (sortWaste label s)))"
proof -
  have plan: "0 < N \<longrightarrow> planMove k k N = 0"
    by (simp add: planMove_same)
  have exec: "newEvents s (sortWaste label s) =
          [Serial MsgSortingTo, Buzzer HIGH, Delay 300, Buzzer LOW, Serial MsgAlreadyAtTarget,
           TrapdoorWrite servoOpenAngle, Delay trapdoorOpenMs, TrapdoorWrite servoClosedAngle,
           SlotWrite label, Serial MsgWasteSorted,
           Buzzer HIGH, Delay 80, Buzzer LOW, Delay 50,
           Buzzer HIGH, Delay 80, Buzzer LOW, Delay 50,
           Buzzer HIGH, Delay 80, Buzzer LOW]"
    if "planMove (currentSlot s) label wasteCategories = 0"
    by (rule newEvents_append) (simp add: sortWaste_trace that)
  show ?thesis
    using plan exec by (simp add: trapdoorOpenMs_def)
qed

theorem zero_delta_no_rotation_witness:
  "planMove 2 2 wasteCategories = 0
   \<and> newEvents (boot\<lparr>currentSlot := 2\<rparr>) (sortWaste 2 (boot\<lparr>currentSlot := 2\<rparr>)) =
          [Serial MsgSortingTo, Buzzer HIGH, Delay 300, Buzzer LOW, Serial MsgAlreadyAtTarget,
           TrapdoorWrite 90, Delay 900, TrapdoorWrite 0,
           SlotWrite 2, Serial MsgWasteSorted,
           Buzzer HIGH, Delay 80, Buzzer LOW, Delay 50,
           Buzzer HIGH, Delay 80, Buzzer LOW, Delay 50,
           Buzzer HIGH, Delay 80, Buzzer LOW]"
  using zero_delta_no_rotation [of wasteCategories 2 "boot\<lparr>currentSlot := 2\<rparr>" 2]
  by (simp add: wasteCategories_def planMove_def c_div_def servoOpenAngle_def
      servoClosedAngle_def trapdoorOpenMs_def)

subsection \<open>Motor steps\<close>

lemma motorSteps_append [simp]: "motorSteps (xs @ ys) = motorSteps xs + motorSteps ys"
  by (simp add: motorSteps_def)

lemma motorSteps_sortWaste:
  "motorSteps (trace (sortWaste label s)) =
     motorSteps (trace s) + planMove (currentSlot s) label wasteCategories * stepsPerSlot"
  by (simp add: sortWaste_trace) (simp add: motorSteps_def)

lemma motorSteps_sortAll:
  "motorSteps (trace (sortAll labels s)) =
     motorSteps (trace s) + sum_list (plannedDeltas (currentSlot s) labels) * stepsPerSlot"
  by (induction labels arbitrary: s) (simp_all add: motorSteps_sortWaste algebra_simps)

text \<open>
  Claim C10. The steps per slot are \<open>2048 / 5 = 409\<close> by truncating division, so five
  slots are 2045 steps, not 2048. A move of \<open>delta\<close> slots commands exactly
  \<open>delta * 409\<close> motor steps, and a sequence of moves whose deltas sum to a full
  revolution (five slots, in either direction) commands 3 steps less than a revolution.
\<close>

theorem stepsPerSlot_truncates:
  "stepsPerSlot = 409
   \<and> wasteCategories * stepsPerSlot = 2045
   \<and> wasteCategories * stepsPerSlot \<noteq> stepsPerRevolution
   \<and> motorSteps (trace (sortWaste label s)) - motorSteps (trace s)
       = planMove (currentSlot s) label wasteCategories * 409
   \<and> (sum_list (plannedDeltas (currentSlot s) labels) = wasteCategories \<longrightarrow>
        motorSteps (trace (sortAll labels s)) - motorSteps (trace s) = stepsPerRevolution - 3)
   \<and> (sum_list (plannedDeltas (currentSlot s) labels) = - wasteCategories \<longrightarrow>
        motorSteps (trace (sortAll labels s)) - motorSteps (trace s)
          = - (stepsPerRevolution - 3))"
  by (simp add: motorSteps_sortWaste motorSteps_sortAll stepsPerSlot_409
      wasteCategories_def stepsPerRevolution_def)

theorem stepsPerSlot_truncates_witness:
  "sum_list (plannedDeltas (currentSlot boot) [2, 4, 0]) = wasteCategories
   \<and> motorSteps (trace (sortAll [2, 4, 0] boot)) - motorSteps (trace boot) = 2045
   \<and> sum_list (plannedDeltas (currentSlot boot) [3, 1, 0]) = - wasteCategories
   \<and> motorSteps (trace (sortAll [3, 1, 0] boot)) - motorSteps (trace boot) = - 2045"
  using stepsPerSlot_truncates [of 0 boot "[2, 4, 0]"]
    stepsPerSlot_truncates [of 0 boot "[3, 1, 0]"]
  by (simp add: boot_def planMove_def c_div_def wasteCategories_def stepsPerRevolution_def)

subsection \<open>Label matching\<close>

lemma strcmp_eq [simp]: "strcmp a b = 0 \<longleftrightarrow> a = b"
  by (induction a b rule: strcmp.induct) auto

lemma labelLoop_null: "i < wasteCategories \<Longrightarrow> labelLoop None i = Inl NullStrcmp"
  by (simp add: labelLoop.simps)

lemma labelLoop_table:
  "labelLoop (Some l) 0 =
     Inr (if l = ''Plastic'' then 0 else if l = ''Paper'' then 1 else if l = ''Organic'' then 2
          else if l = ''Metal'' then 3 else if l = ''Glass'' then 4 else - 1)"
  by (simp add: labelLoop.simps wasteCategories_def wasteLabels_def)

subsection \<open>Connectivity\<close>

lemma WiFi_status_simp [simp]:
  "WiFi_status w s = (linkUp w (statusReads s), s\<lparr>statusReads := Suc (statusReads s)\<rparr>)"
  by (simp add: WiFi_status_def)

lemma millis_simps [simp]:
  "millis (s\<lparr>statusReads := n\<rparr>) = millis s"
  "millis (emit e s) = millis s"
  by (simp_all add: millis_def)

lemma reconnect_round:
  assumes "millis s - waitStart < 5000"
  shows "unat (millis (delay 200 s) - waitStart) = unat (millis s - waitStart) + 200"
proof -
  from assms have lt: "unat (millis s - waitStart) < 5000"
    by (simp add: word_less_nat_alt)
  have eq: "millis (delay 200 s) - waitStart = (millis s - waitStart) + 200"
    by (simp add: millis_def delay_def emit_def)
  have "unat ((millis s - waitStart) + (200 :: 32 word)) = unat (millis s - waitStart) + 200"
    using lt by (simp add: unat_add_lem [THEN iffD1])
  then show ?thesis
    by (simp only: eq)
qed

lemma reconnectWait_shape:
  "\<exists>k. trace (reconnectWait w waitStart s) = trace s @ replicate k (Delay 200)
       \<and> clock (reconnectWait w waitStart s) = clock s + 200 * k
       \<and> statusReads (reconnectWait w waitStart s) = statusReads s + Suc k
       \<and> currentSlot (reconnectWait w waitStart s) = currentSlot s
       \<and> lastIrTime (reconnectWait w waitStart s) = lastIrTime s
       \<and> (k = 0 \<or> unat (millis s - waitStart) + 200 * (k - 1) < 5000)
       \<and> (\<forall>j<k. \<not> linkUp w (statusReads s + j))
       \<and> (linkUp w (statusReads s + k) \<or> 5000 \<le> unat (millis s - waitStart) + 200 * k)"
proof (induction w waitStart s rule: reconnectWait.induct)
  case (1 w waitStart s)
  let ?s1 = "s\<lparr>statusReads := Suc (statusReads s)\<rparr>"
  show ?case
  proof (cases "\<not> linkUp w (statusReads s) \<and> millis s - waitStart < 5000")
    case False
    then have "reconnectWait w waitStart s = ?s1"
      by (subst reconnectWait.simps) auto
    moreover from False
    have "linkUp w (statusReads s) \<or> 5000 \<le> unat (millis s - waitStart)"
      by (auto simp: word_less_nat_alt)
    ultimately show ?thesis
      by (intro exI [of _ 0]) simp
  next
    case True
    then have unfold: "reconnectWait w waitStart s = reconnectWait w waitStart (delay 200 ?s1)"
      by (subst reconnectWait.simps) simp
    from True have cond: "\<not> linkUp w (statusReads s) \<and> millis ?s1 - waitStart < 5000"
      by simp
    have st: "(linkUp w (statusReads s), ?s1) = WiFi_status w s"
      by simp
    from "1.IH" [OF st cond] obtain k where
      k: "trace (reconnectWait w waitStart (delay 200 ?s1)) = trace (delay 200 ?s1) @ replicate k (Delay 200)"
         "clock (reconnectWait w waitStart (delay 200 ?s1)) = clock (delay 200 ?s1) + 200 * k"
         "statusReads (reconnectWait w waitStart (delay 200 ?s1)) = statusReads (delay 200 ?s1) + Suc k"
         "currentSlot (reconnectWait w waitStart (delay 200 ?s1)) = currentSlot (delay 200 ?s1)"
         "lastIrTime (reconnectWait w waitStart (delay 200 ?s1)) = lastIrTime (delay 200 ?s1)"
         "k = 0 \<or> unat (millis (delay 200 ?s1) - waitStart) + 200 * (k - 1) < 5000"
         "\<forall>j<k. \<not> linkUp w (statusReads (delay 200 ?s1) + j)"
         "linkUp w (statusReads (delay 200 ?s1) + k)
          \<or> 5000 \<le> unat (millis (delay 200 ?s1) - waitStart) + 200 * k"
      by blast
    have round: "unat (millis (delay 200 ?s1) - waitStart) = unat (millis s - waitStart) + 200"
      using reconnect_round [of ?s1 waitStart] True by simp
    have lt: "unat (millis s - waitStart) < 5000"
      using True by (simp add: word_less_nat_alt)
    have bound: "unat (millis s - waitStart) + 200 * (Suc k - 1) < 5000"
      using k(6) round lt by (cases k) auto
    have polls: "\<forall>j<Suc k. \<not> linkUp w (statusReads s + j)"
    proof (intro allI impI)
      fix j assume "j < Suc k"
      then show "\<not> linkUp w (statusReads s + j)"
        using True k(7) by (cases j) auto
    qed
    have exit: "linkUp w (statusReads s + Suc k)
                \<or> 5000 \<le> unat (millis s - waitStart) + 200 * Suc k"
      using k(8) round by auto
    show ?thesis
      unfolding unfold
      by (intro exI [of _ "Suc k"])
         (use k(1-5) bound polls exit in \<open>simp add: replicate_app_Cons_same\<close>)
  qed
qed

lemma ensureConnected_up:
  "linkUp w (statusReads s) \<Longrightarrow>
     ensureConnected w s = (True, s\<lparr>statusReads := Suc (statusReads s)\<rparr>)"
  by (simp add: ensureConnected_def)

lemma ensureConnected_down:
  assumes "\<not> linkUp w (statusReads s)"
  shows "\<exists>k\<le>25.
           fst (ensureConnected w s) = linkUp w (statusReads s + k + 2)
         \<and> trace (snd (ensureConnected w s)) =
             trace s @ [Serial MsgWiFiDisconnected, WiFiDisconnect, WiFiReconnect]
             @ replicate k (Delay 200)
             @ (if fst (ensureConnected w s)
                then [Serial MsgWiFiReconnected, Buzzer HIGH, Delay 300, Buzzer LOW, Delay 150,
                      Buzzer HIGH, Delay 150, Buzzer LOW]
                else [Serial MsgWiFiStillDown, Buzzer HIGH, Delay 200, Buzzer LOW, Delay 150,
                      Buzzer HIGH, Delay 200, Buzzer LOW, Delay 150,
                      Buzzer HIGH, Delay 200, Buzzer LOW])
         \<and> currentSlot (snd (ensureConnected w s)) = currentSlot s
         \<and> lastIrTime (snd (ensureConnected w s)) = lastIrTime s"
proof -
  let ?s2 = "emit WiFiReconnect (emit WiFiDisconnect (emit (Serial MsgWiFiDisconnected)
               (s\<lparr>statusReads := Suc (statusReads s)\<rparr>)))"
  let ?r = "reconnectWait w (millis ?s2) ?s2"
  obtain k where
    k: "trace ?r = trace ?s2 @ replicate k (Delay 200)"
       "statusReads ?r = statusReads ?s2 + Suc k"
       "currentSlot ?r = currentSlot ?s2"
       "lastIrTime ?r = lastIrTime ?s2"
       "k = 0 \<or> unat (millis ?s2 - millis ?s2) + 200 * (k - 1) < 5000"
    using reconnectWait_shape [of w "millis ?s2" ?s2] by blast
  from k(5) have le: "k \<le> 25"
    by auto
  have reads: "statusReads ?r = statusReads s + k + 2"
    using k(2) by simp
  show ?thesis
    using assms le k(1,3,4) reads
    by (intro exI [of _ k])
       (simp add: ensureConnected_def Let_def beepWiFiFailed_def beepWiFiConnected_def
          beep_1 beep_3)
qed

lemma ensureConnected_polls:
  assumes "\<not> linkUp w (statusReads s)"
  shows "\<exists>k\<le>25.
           (\<forall>j<k. \<not> linkUp w (statusReads s + 1 + j))
         \<and> (k = 25 \<or> linkUp w (statusReads s + 1 + k))
         \<and> fst (ensureConnected w s) = linkUp w (statusReads s + k + 2)
         \<and> statusReads (snd (ensureConnected w s)) = statusReads s + k + 3
         \<and> clock (snd (ensureConnected w s))
             = clock s + 200 * k + (if fst (ensureConnected w s) then 600 else 900)
         \<and> trace (snd (ensureConnected w s)) =
             trace s @ [Serial MsgWiFiDisconnected, WiFiDisconnect, WiFiReconnect]
             @ replicate k (Delay 200)
             @ (if fst (ensureConnected w s)
                then [Serial MsgWiFiReconnected, Buzzer HIGH, Delay 300, Buzzer LOW, Delay 150,
                      Buzzer HIGH, Delay 150, Buzzer LOW]
                else [Serial MsgWiFiStillDown, Buzzer HIGH, Delay 200, Buzzer LOW, Delay 150,
                      Buzzer HIGH, Delay 200, Buzzer LOW, Delay 150,
                      Buzzer HIGH, Delay 200, Buzzer LOW])"
proof -
  let ?s2 = "emit WiFiReconnect (emit WiFiDisconnect (emit (Serial MsgWiFiDisconnected)
               (s\<lparr>statusReads := Suc (statusReads s)\<rparr>)))"
  let ?r = "reconnectWait w (millis ?s2) ?s2"
  obtain k where
    k: "trace ?r = trace ?s2 @ replicate k (Delay 200)"
       "clock ?r = clock ?s2 + 200 * k"
       "statusReads ?r = statusReads ?s2 + Suc k"
       "k = 0 \<or> unat (millis ?s2 - millis ?s2) + 200 * (k - 1) < 5000"
       "\<forall>j<k. \<not> linkUp w (statusReads ?s2 + j)"
       "linkUp w (statusReads ?s2 + k) \<or> 5000 \<le> unat (millis ?s2 - millis ?s2) + 200 * k"
    using reconnectWait_shape [of w "millis ?s2" ?s2] by blast
  from k(4) have le: "k \<le> 25"
    by auto
  have reads: "statusReads ?r = statusReads s + k + 2"
    using k(3) by simp
  have polls: "\<forall>j<k. \<not> linkUp w (statusReads s + 1 + j)"
    using k(5) by simp
  have exit: "k = 25 \<or> linkUp w (statusReads s + 1 + k)"
    using k(6) le by auto
  show ?thesis
    using assms le k(1,2) reads polls exit
    by (intro exI [of _ k])
       (simp add: ensureConnected_def Let_def beepWiFiFailed_def beepWiFiConnected_def
          beep_1 beep_3)
qed

lemma ensureConnected_frame:
  "currentSlot (snd (ensureConnected w s)) = currentSlot s
   \<and> lastIrTime (snd (ensureConnected w s)) = lastIrTime s
   \<and> (\<exists>es. trace (snd (ensureConnected w s)) = trace s @ es
           \<and> list_all (\<lambda>e. \<not> sortEvent e) es \<and> CameraFbGet \<notin> set es)"
proof (cases "linkUp w (statusReads s)")
  case True
  then show ?thesis
    by (simp add: ensureConnected_up)
next
  case False
  from ensureConnected_down [OF False] obtain k where
    k: "trace (snd (ensureConnected w s)) =
             trace s @ [Serial MsgWiFiDisconnected, WiFiDisconnect, WiFiReconnect]
             @ replicate k (Delay 200)
             @ (if fst (ensureConnected w s)
                then [Serial MsgWiFiReconnected, Buzzer HIGH, Delay 300, Buzzer LOW, Delay 150,
                      Buzzer HIGH, Delay 150, Buzzer LOW]
                else [Serial MsgWiFiStillDown, Buzzer HIGH, Delay 200, Buzzer LOW, Delay 150,
                      Buzzer HIGH, Delay 200, Buzzer LOW, Delay 150,
                      Buzzer HIGH, Delay 200, Buzzer LOW])"
       "currentSlot (snd (ensureConnected w s)) = currentSlot s"
       "lastIrTime (snd (ensureConnected w s)) = lastIrTime s"
    by blast
  show ?thesis
    by (simp only: k(2,3) simp_thms, rule exI, rule conjI, rule k(1))
       (simp add: list_all_iff)
qed

lemma handle_timeout:
  "\<not> fst (ensureConnected w s) \<Longrightarrow>
     handleWasteDetected w s = Inr (ConnectivityTimeout, snd (ensureConnected w s))"
  by (simp add: handleWasteDetected_def case_prod_beta)

lemma replicate_25:
  "replicate 25 x = [x, x, x, x, x, x, x, x, x, x, x, x, x, x, x, x, x, x, x, x, x, x, x, x, x]"
  by (simp add: eval_nat_numeral)

lemma example_recovering:
  "ensureConnected recoveringWorld boot =
     (True,
      \<lparr>currentSlot = 0, lastIrTime = 0, clock = 1000, statusReads = 5,
         trace = [Serial MsgWiFiDisconnected, WiFiDisconnect, WiFiReconnect,
                  Delay 200, Delay 200,
                  Serial MsgWiFiReconnected, Buzzer HIGH, Delay 300, Buzzer LOW, Delay 150,
                  Buzzer HIGH, Delay 150, Buzzer LOW]\<rparr>)"
  by (simp add: ensureConnected_def boot_def reconnectWait.simps Let_def
      beepWiFiConnected_def beep_1 emit_def delay_def millis_def
      recoveringWorld_def linkUpFrom_def)

lemma example_offline:
  "ensureConnected offlineWorld boot =
     (False,
      \<lparr>currentSlot = 0, lastIrTime = 0, clock = 5900, statusReads = 28,
         trace = [Serial MsgWiFiDisconnected, WiFiDisconnect, WiFiReconnect]
                 @ replicate 25 (Delay 200)
                 @ [Serial MsgWiFiStillDown, Buzzer HIGH, Delay 200, Buzzer LOW, Delay 150,
                    Buzzer HIGH, Delay 200, Buzzer LOW, Delay 150,
                    Buzzer HIGH, Delay 200, Buzzer LOW]\<rparr>)"
  by (simp add: ensureConnected_def boot_def reconnectWait.simps Let_def
      beepWiFiFailed_def beep_3 emit_def delay_def millis_def replicate_25
      offlineWorld_def linkAlwaysDown_def)

text \<open>
  Claim C5. When the link is up at the first status read, the connectivity step returns
  true at once, makes no event and changes nothing but the count of status reads.
  Otherwise it disconnects and reconnects, then polls the status with a 200 ms delay
  between two polls: every poll before the last finds the link down, and the polling stops
  at the first poll that finds it up or after 25 delays (5 s). One more status read
  decides the result: with the link up the step returns true after the connected pattern
  (300 ms pulse, 150 ms gap, 150 ms pulse), with the link down it returns false after the
  failed pattern (three 200 ms pulses, 150 ms apart) made once. When it returns false the
  cycle ends without a capture attempt. In no case does the step change
  \<open>currentSlot\<close> or \<open>lastIrTime\<close>.
\<close>

theorem ensureConnected_contract:
  "(linkUp w (statusReads s) \<longrightarrow>
      ensureConnected w s = (True, s\<lparr>statusReads := Suc (statusReads s)\<rparr>)
      \<and> newEvents s (snd (ensureConnected w s)) = [])
   \<and> (\<not> linkUp w (statusReads s) \<longrightarrow>
        (\<exists>k\<le>25.
           (\<forall>j<k. \<not> linkUp w (statusReads s + 1 + j))
         \<and> (k = 25 \<or> linkUp w (statusReads s + 1 + k))
         \<and> fst (ensureConnected w s) = linkUp w (statusReads s + k + 2)
         \<and> statusReads (snd (ensureConnected w s)) = statusReads s + k + 3
         \<and> clock (snd (ensureConnected w s))
             = clock s + 200 * k + (if fst (ensureConnected w s) then 600 else 900)
         \<and> newEvents s (snd (ensureConnected w s)) =
             [Serial MsgWiFiDisconnected, WiFiDisconnect, WiFiReconnect]
             @ replicate k (Delay 200)
             @ (if fst (ensureConnected w s)
                then [Serial MsgWiFiReconnected, Buzzer HIGH, Delay 300, Buzzer LOW, Delay 150,
                      Buzzer HIGH, Delay 150, Buzzer LOW]
                else [Serial MsgWiFiStillDown, Buzzer HIGH, Delay 200, Buzzer LOW, Delay 150,
                      Buzzer HIGH, Delay 200, Buzzer LOW, Delay 150,
                      Buzzer HIGH, Delay 200, Buzzer LOW])))
   \<and> (\<not> fst (ensureConnected w s) \<longrightarrow>
        handleWasteDetected w s = Inr (ConnectivityTimeout, snd (ensureConnected w s))
        \<and> CameraFbGet \<notin> set (newEvents s (snd (ensureConnected w s)))
        \<and> currentSlot (snd (ensureConnected w s)) = currentSlot s)
   \<and> currentSlot (snd (ensureConnected w s)) = currentSlot s
   \<and> lastIrTime (snd (ensureConnected w s)) = lastIrTime s"
proof (intro conjI impI)
  assume "linkUp w (statusReads s)"
  then show "ensureConnected w s = (True, s\<lparr>statusReads := Suc (statusReads s)\<rparr>)"
    "newEvents s (snd (ensureConnected w s)) = []"
    by (simp_all add: ensureConnected_up newEvents_def)
next
  assume "\<not> linkUp w (statusReads s)"
  from ensureConnected_polls [OF this] obtain k where
    k: "k \<le> 25"
       "\<forall>j<k. \<not> linkUp w (statusReads s + 1 + j)"
       "k = 25 \<or> linkUp w (statusReads s + 1 + k)"
       "fst (ensureConnected w s) = linkUp w (statusReads s + k + 2)"
       "statusReads (snd (ensureConnected w s)) = statusReads s + k + 3"
       "clock (snd (ensureConnected w s))
          = clock s + 200 * k + (if fst (ensureConnected w s) then 600 else 900)"
       "trace (snd (ensureConnected w s)) =
          trace s @ [Serial MsgWiFiDisconnected, WiFiDisconnect, WiFiReconnect]
          @ replicate k (Delay 200)
          @ (if fst (ensureConnected w s)
             then [Serial MsgWiFiReconnected, Buzzer HIGH, Delay 300, Buzzer LOW, Delay 150,
                   Buzzer HIGH, Delay 150, Buzzer LOW]
             else [Serial MsgWiFiStillDown, Buzzer HIGH, Delay 200, Buzzer LOW, Delay 150,
                   Buzzer HIGH, Delay 200, Buzzer LOW, Delay 150,
                   Buzzer HIGH, Delay 200, Buzzer LOW])"
    by blast
  have "newEvents s (snd (ensureConnected w s)) =
          [Serial MsgWiFiDisconnected, WiFiDisconnect, WiFiReconnect]
          @ replicate k (Delay 200)
          @ (if fst (ensureConnected w s)
             then [Serial MsgWiFiReconnected, Buzzer HIGH, Delay 300, Buzzer LOW, Delay 150,
                   Buzzer HIGH, Delay 150, Buzzer LOW]
             else [Serial MsgWiFiStillDown, Buzzer HIGH, Delay 200, Buzzer LOW, Delay 150,
                   Buzzer HIGH, Delay 200, Buzzer LOW, Delay 150,
                   Buzzer HIGH, Delay 200, Buzzer LOW])"
    by (rule newEvents_append) (simp add: k(7))
  with k(1-6) show "\<exists>k\<le>25.
           (\<forall>j<k. \<not> linkUp w (statusReads s + 1 + j))
         \<and> (k = 25 \<or> linkUp w (statusReads s + 1 + k))
         \<and> fst (ensureConnected w s) = linkUp w (statusReads s + k + 2)
         \<and> statusReads (snd (ensureConnected w s)) = statusReads s + k + 3
         \<and> clock (snd (ensureConnected w s))
             = clock s + 200 * k + (if fst (ensureConnected w s) then 600 else 900)
         \<and> newEvents s (snd (ensureConnected w s)) =
             [Serial MsgWiFiDisconnected, WiFiDisconnect, WiFiReconnect]
             @ replicate k (Delay 200)
             @ (if fst (ensureConnected w s)
                then [Serial MsgWiFiReconnected, Buzzer HIGH, Delay 300, Buzzer LOW, Delay 150,
                      Buzzer HIGH, Delay 150, Buzzer LOW]
                else [Serial MsgWiFiStillDown, Buzzer HIGH, Delay 200, Buzzer LOW, Delay 150,
                      Buzzer HIGH, Delay 200, Buzzer LOW, Delay 150,
                      Buzzer HIGH, Delay 200, Buzzer LOW])"
    by blast
next
  assume "\<not> fst (ensureConnected w s)"
  then show "handleWasteDetected w s = Inr (ConnectivityTimeout, snd (ensureConnected w s))"
    by (rule handle_timeout)
next
  from ensureConnected_frame [of w s] obtain es where
    "trace (snd (ensureConnected w s)) = trace s @ es" "CameraFbGet \<notin> set es"
    by blast
  then show "CameraFbGet \<notin> set (newEvents s (snd (ensureConnected w s)))"
    by (simp add: newEvents_append)
next
  show "currentSlot (snd (ensureConnected w s)) = currentSlot s"
    by (simp add: ensureConnected_frame)
next
  show "currentSlot (snd (ensureConnected w s)) = currentSlot s"
    "lastIrTime (snd (ensureConnected w s)) = lastIrTime s"
    by (simp_all add: ensureConnected_frame)
qed

theorem ensureConnected_contract_witness:
  "ensureConnected (exampleWorld 200 Malformed) boot = (True, boot\<lparr>statusReads := 1\<rparr>)
   \<and> newEvents boot (snd (ensureConnected (exampleWorld 200 Malformed) boot)) = []
   \<and> ensureConnected recoveringWorld boot =
       (True,
        \<lparr>currentSlot = 0, lastIrTime = 0, clock = 1000, statusReads = 5,
           trace = [Serial MsgWiFiDisconnected, WiFiDisconnect, WiFiReconnect,
                    Delay 200, Delay 200,
                    Serial MsgWiFiReconnected, Buzzer HIGH, Delay 300, Buzzer LOW, Delay 150,
                    Buzzer HIGH, Delay 150, Buzzer LOW]\<rparr>)
   \<and> ensureConnected offlineWorld boot =
       (False,
        \<lparr>currentSlot = 0, lastIrTime = 0, clock = 5900, statusReads = 28,
           trace = [Serial MsgWiFiDisconnected, WiFiDisconnect, WiFiReconnect]
                   @ replicate 25 (Delay 200)
                   @ [Serial MsgWiFiStillDown, Buzzer HIGH, Delay 200, Buzzer LOW, Delay 150,
                      Buzzer HIGH, Delay 200, Buzzer LOW, Delay 150,
                      Buzzer HIGH, Delay 200, Buzzer LOW]\<rparr>)
   \<and> handleWasteDetected offlineWorld boot
       = Inr (ConnectivityTimeout, snd (ensureConnected offlineWorld boot))
   \<and> CameraFbGet \<notin> set (newEvents boot (snd (ensureConnected offlineWorld boot)))
   \<and> currentSlot (snd (ensureConnected offlineWorld boot)) = currentSlot boot"
proof -
  have up: "linkUp (exampleWorld 200 Malformed) (statusReads boot)"
    by (simp add: exampleWorld_def linkAlwaysUp_def)
  have rec: "\<not> linkUp recoveringWorld (statusReads boot)"
    by (simp add: recoveringWorld_def linkUpFrom_def boot_def)
  have off: "\<not> linkUp offlineWorld (statusReads boot)"
    by (simp add: offlineWorld_def linkAlwaysDown_def)
  have down: "\<not> fst (ensureConnected offlineWorld boot)"
    by (simp add: example_offline)
  from ensureConnected_contract [of "exampleWorld 200 Malformed" boot] up
  have a: "ensureConnected (exampleWorld 200 Malformed) boot = (True, boot\<lparr>statusReads := 1\<rparr>)"
    "newEvents boot (snd (ensureConnected (exampleWorld 200 Malformed) boot)) = []"
    by (simp_all add: boot_def newEvents_def)
  from ensureConnected_contract [of offlineWorld boot] down
  have b: "handleWasteDetected offlineWorld boot
       = Inr (ConnectivityTimeout, snd (ensureConnected offlineWorld boot))"
    "CameraFbGet \<notin> set (newEvents boot (snd (ensureConnected offlineWorld boot)))"
    "currentSlot (snd (ensureConnected offlineWorld boot)) = currentSlot boot"
    by simp_all
  from ensureConnected_contract [of recoveringWorld boot] rec
  have "\<exists>k\<le>25. fst (ensureConnected recoveringWorld boot)
                   = linkUp recoveringWorld (statusReads boot + k + 2)"
    by blast
  with a b example_recovering example_offline show ?thesis
    by simp
qed

subsection \<open>The detection cycle\<close>

lemma releaseFrame_fields [simp]:
  "trace (releaseFrame s) = trace s @ [HttpEnd, CameraFbReturn]"
  "currentSlot (releaseFrame s) = currentSlot s"
  "lastIrTime (releaseFrame s) = lastIrTime s"
  by (simp_all add: releaseFrame_def)

lemma labelLoop_range:
  assumes "labelLoop p 0 = Inr i"
  shows "i = - 1 \<and> (\<forall>l. p = Some l \<longrightarrow> l \<notin> set wasteLabels)
         \<or> 0 \<le> i \<and> i < wasteCategories \<and> p = Some (wasteLabels ! nat i)"
proof (cases p)
  case None
  with assms show ?thesis
    by (simp add: labelLoop_null wasteCategories_def)
next
  case (Some l)
  with assms show ?thesis
    by (auto simp: labelLoop_table wasteCategories_def wasteLabels_def split: if_splits)
qed

lemma labelLoop_known:
  assumes "l \<in> set wasteLabels"
  shows "\<exists>i. labelLoop (Some l) 0 = Inr i \<and> 0 \<le> i \<and> i < wasteCategories
             \<and> wasteLabels ! nat i = l"
  using assms by (auto simp: labelLoop_table wasteCategories_def wasteLabels_def)

lemma labelLoop_unknown: "l \<notin> set wasteLabels \<Longrightarrow> labelLoop (Some l) 0 = Inr (- 1)"
  by (simp add: labelLoop_table wasteLabels_def)

lemma handle_capture:
  assumes "fst (ensureConnected w s)" and "\<not> capture w"
  shows "handleWasteDetected w s =
           Inr (CaptureError,
                emit (Serial MsgCaptureFailed) (emit CameraFbGet (snd (ensureConnected w s))))"
  using assms by (simp add: handleWasteDetected_def case_prod_beta Let_def)

lemma handle_network:
  assumes "fst (ensureConnected w s)" and "capture w" and "httpCode w \<le> 0"
  shows "handleWasteDetected w s =
           Inr (NetworkError,
                releaseFrame (emit (Serial MsgHttpPostFailed)
                  (emit HttpPost (emit HttpAddHeader (emit HttpBegin
                    (emit CameraFbGet (snd (ensureConnected w s))))))))"
  using assms by (simp add: handleWasteDetected_def case_prod_beta Let_def)

lemma handle_parse:
  assumes "fst (ensureConnected w s)" and "capture w" and "0 < httpCode w"
    and "response w = Malformed"
  shows "handleWasteDetected w s =
           Inr (ParseError,
                emit (Serial MsgJsonParseFailed) (emit (Serial MsgHttpResponse)
                  (emit HttpGetString (emit HttpPost (emit HttpAddHeader (emit HttpBegin
                    (emit CameraFbGet (snd (ensureConnected w s)))))))))"
  using assms by (simp add: handleWasteDetected_def case_prod_beta Let_def)

lemma handle_label:
  assumes "fst (ensureConnected w s)" and "capture w" and "0 < httpCode w"
    and "response w = Document p"
  shows "handleWasteDetected w s =
           (case labelLoop p 0 of
              Inl f \<Rightarrow> Inl f
            | Inr labelIndex \<Rightarrow>
                if labelIndex = - 1 then
                  Inr (UnknownLabel,
                       releaseFrame (emit (Serial MsgUnknownLabel) (emit (Serial MsgHttpResponse)
                         (emit HttpGetString (emit HttpPost (emit HttpAddHeader (emit HttpBegin
                           (emit CameraFbGet (snd (ensureConnected w s))))))))))
                else
                  Inr (Sorted,
                       releaseFrame (sortWaste labelIndex (emit (Serial MsgMappedLabel)
                         (emit (Serial MsgHttpResponse)
                           (emit HttpGetString (emit HttpPost (emit HttpAddHeader (emit HttpBegin
                             (emit CameraFbGet (snd (ensureConnected w s)))))))))))
            )"
  using assms by (simp add: handleWasteDetected_def case_prod_beta Let_def)

lemma handle_frame:
  assumes "handleWasteDetected w s = Inr (oc, s')"
  shows "lastIrTime s' = lastIrTime s
         \<and> (\<exists>es. trace s' = trace s @ es
               \<and> (oc \<noteq> Sorted \<longrightarrow> currentSlot s' = currentSlot s
                      \<and> list_all (\<lambda>e. \<not> sortEvent e) es)
               \<and> (oc = Sorted \<longrightarrow> 0 \<le> currentSlot s' \<and> currentSlot s' < wasteCategories)
               \<and> list_all slotWriteOk es)"
proof -
  let ?c = "snd (ensureConnected w s)"
  from ensureConnected_frame [of w s] obtain es0 where
    c: "currentSlot ?c = currentSlot s" "lastIrTime ?c = lastIrTime s"
       "trace ?c = trace s @ es0" "list_all (\<lambda>e. \<not> sortEvent e) es0"
    by blast
  have ok0: "list_all slotWriteOk es0"
    using c(4) by (induction es0) (auto elim: sortEvent.elims)
  consider (timeout) "\<not> fst (ensureConnected w s)"
    | (capture) "fst (ensureConnected w s)" "\<not> capture w"
    | (network) "fst (ensureConnected w s)" "capture w" "httpCode w \<le> 0"
    | (parse) "fst (ensureConnected w s)" "capture w" "0 < httpCode w" "response w = Malformed"
    | (label) p where "fst (ensureConnected w s)" "capture w" "0 < httpCode w"
        "response w = Document p"
    by (cases "response w") force+
  then show ?thesis
  proof cases
    case timeout
    with assms c ok0 show ?thesis
      by (auto simp: handle_timeout)
  next
    case capture
    with assms c ok0 show ?thesis
      by (auto simp: handle_capture)
  next
    case network
    with assms c ok0 show ?thesis
      by (auto simp: handle_network)
  next
    case parse
    with assms c ok0 show ?thesis
      by (auto simp: handle_parse)
  next
    case label
    from assms obtain i where i: "labelLoop p 0 = Inr i"
      by (auto simp: handle_label [OF label] split: sum.splits)
    from labelLoop_range [OF i] have range: "i = - 1 \<or> 0 \<le> i \<and> i < wasteCategories"
      by blast
    show ?thesis
    proof (cases "i = - 1")
      case True
      with assms i c ok0 show ?thesis
        by (auto simp: handle_label [OF label])
    next
      case False
      with range have "0 \<le> i" "i < wasteCategories"
        by auto
      with assms i c ok0 False show ?thesis
        by (auto simp: handle_label [OF label] sortWaste_trace)
    qed
  qed
qed

lemma handle_null:
  assumes "fst (ensureConnected w s)" and "capture w" and "0 < httpCode w"
    and "response w = Document None"
  shows "handleWasteDetected w s = Inl NullStrcmp"
  using assms by (simp add: handle_label labelLoop_null wasteCategories_def)

lemma handle_unknown:
  assumes "fst (ensureConnected w s)" and "capture w" and "0 < httpCode w"
    and "response w = Document (Some l)" and "l \<notin> set wasteLabels"
  shows "handleWasteDetected w s =
           Inr (UnknownLabel,
                releaseFrame (emit (Serial MsgUnknownLabel) (emit (Serial MsgHttpResponse)
                  (emit HttpGetString (emit HttpPost (emit HttpAddHeader (emit HttpBegin
                    (emit CameraFbGet (snd (ensureConnected w s))))))))))"
  using assms by (simp add: handle_label labelLoop_unknown)

lemma handle_known:
  assumes "fst (ensureConnected w s)" and "capture w" and "0 < httpCode w"
    and "response w = Document (Some l)" and "labelLoop (Some l) 0 = Inr i" and "i \<noteq> - 1"
  shows "handleWasteDetected w s =
           Inr (Sorted,
                releaseFrame (sortWaste i (emit (Serial MsgMappedLabel)
                  (emit (Serial MsgHttpResponse)
                    (emit HttpGetString (emit HttpPost (emit HttpAddHeader (emit HttpBegin
                      (emit CameraFbGet (snd (ensureConnected w s)))))))))))"
  using assms by (simp add: handle_label)

text \<open>Which exit a cycle takes, from its inputs.\<close>

lemma handle_outcome:
  "(\<exists>s'. handleWasteDetected w s = Inr (ConnectivityTimeout, s'))
     \<longleftrightarrow> \<not> fst (ensureConnected w s)"
  "(\<exists>s'. handleWasteDetected w s = Inr (CaptureError, s'))
     \<longleftrightarrow> fst (ensureConnected w s) \<and> \<not> capture w"
  "(\<exists>s'. handleWasteDetected w s = Inr (NetworkError, s'))
     \<longleftrightarrow> fst (ensureConnected w s) \<and> capture w \<and> httpCode w \<le> 0"
  "(\<exists>s'. handleWasteDetected w s = Inr (ParseError, s'))
     \<longleftrightarrow> fst (ensureConnected w s) \<and> capture w \<and> 0 < httpCode w \<and> response w = Malformed"
  "(\<exists>s'. handleWasteDetected w s = Inr (UnknownLabel, s'))
     \<longleftrightarrow> fst (ensureConnected w s) \<and> capture w \<and> 0 < httpCode w
          \<and> (\<exists>l. response w = Document (Some l) \<and> l \<notin> set wasteLabels)"
  "(\<exists>s'. handleWasteDetected w s = Inr (Sorted, s'))
     \<longleftrightarrow> fst (ensureConnected w s) \<and> capture w \<and> 0 < httpCode w
          \<and> (\<exists>l. response w = Document (Some l) \<and> l \<in> set wasteLabels)"
  "(\<exists>f. handleWasteDetected w s = Inl f)
     \<longleftrightarrow> fst (ensureConnected w s) \<and> capture w \<and> 0 < httpCode w
          \<and> response w = Document None"
proof -
  consider (timeout) "\<not> fst (ensureConnected w s)"
    | (capture) "fst (ensureConnected w s)" "\<not> capture w"
    | (network) "fst (ensureConnected w s)" "capture w" "httpCode w \<le> 0"
    | (parse) "fst (ensureConnected w s)" "capture w" "0 < httpCode w" "response w = Malformed"
    | (null) "fst (ensureConnected w s)" "capture w" "0 < httpCode w"
        "response w = Document None"
    | (unknown) l where "fst (ensureConnected w s)" "capture w" "0 < httpCode w"
        "response w = Document (Some l)" "l \<notin> set wasteLabels"
    | (known) l where "fst (ensureConnected w s)" "capture w" "0 < httpCode w"
        "response w = Document (Some l)" "l \<in> set wasteLabels"
  proof (cases "response w")
    case Malformed
    then show ?thesis using timeout capture network parse by force
  next
    case (Document p)
    then show ?thesis using timeout capture network null unknown known
      by (cases p) force+
  qed
  then have
    "((\<exists>s'. handleWasteDetected w s = Inr (ConnectivityTimeout, s'))
       \<longleftrightarrow> \<not> fst (ensureConnected w s))
     \<and> ((\<exists>s'. handleWasteDetected w s = Inr (CaptureError, s'))
       \<longleftrightarrow> fst (ensureConnected w s) \<and> \<not> capture w)
     \<and> ((\<exists>s'. handleWasteDetected w s = Inr (NetworkError, s'))
       \<longleftrightarrow> fst (ensureConnected w s) \<and> capture w \<and> httpCode w \<le> 0)
     \<and> ((\<exists>s'. handleWasteDetected w s = Inr (ParseError, s'))
       \<longleftrightarrow> fst (ensureConnected w s) \<and> capture w \<and> 0 < httpCode w \<and> response w = Malformed)
     \<and> ((\<exists>s'. handleWasteDetected w s = Inr (UnknownLabel, s'))
       \<longleftrightarrow> fst (ensureConnected w s) \<and> capture w \<and> 0 < httpCode w
          \<and> (\<exists>l. response w = Document (Some l) \<and> l \<notin> set wasteLabels))
     \<and> ((\<exists>s'. handleWasteDetected w s = Inr (Sorted, s'))
       \<longleftrightarrow> fst (ensureConnected w s) \<and> capture w \<and> 0 < httpCode w
          \<and> (\<exists>l. response w = Document (Some l) \<and> l \<in> set wasteLabels))
     \<and> ((\<exists>f. handleWasteDetected w s = Inl f)
       \<longleftrightarrow> fst (ensureConnected w s) \<and> capture w \<and> 0 < httpCode w
          \<and> response w = Document None)"
  proof cases
    case timeout
    then show ?thesis by (simp add: handle_timeout)
  next
    case capture
    then show ?thesis by (simp add: handle_capture)
  next
    case network
    then show ?thesis by (simp add: handle_network)
  next
    case parse
    then show ?thesis by (simp add: handle_parse)
  next
    case null
    then show ?thesis by (simp add: handle_null)
  next
    case unknown
    then show ?thesis by (simp add: handle_unknown)
  next
    case known
    from labelLoop_known [OF known(5)] obtain i where
      "labelLoop (Some l) 0 = Inr i" "0 \<le> i"
      by blast
    with known show ?thesis
      by (simp add: handle_known)
  qed
  then show
    "(\<exists>s'. handleWasteDetected w s = Inr (ConnectivityTimeout, s'))
       \<longleftrightarrow> \<not> fst (ensureConnected w s)"
    "(\<exists>s'. handleWasteDetected w s = Inr (CaptureError, s'))
       \<longleftrightarrow> fst (ensureConnected w s) \<and> \<not> capture w"
    "(\<exists>s'. handleWasteDetected w s = Inr (NetworkError, s'))
       \<longleftrightarrow> fst (ensureConnected w s) \<and> capture w \<and> httpCode w \<le> 0"
    "(\<exists>s'. handleWasteDetected w s = Inr (ParseError, s'))
       \<longleftrightarrow> fst (ensureConnected w s) \<and> capture w \<and> 0 < httpCode w \<and> response w = Malformed"
    "(\<exists>s'. handleWasteDetected w s = Inr (UnknownLabel, s'))
       \<longleftrightarrow> fst (ensureConnected w s) \<and> capture w \<and> 0 < httpCode w
          \<and> (\<exists>l. response w = Document (Some l) \<and> l \<notin> set wasteLabels)"
    "(\<exists>s'. handleWasteDetected w s = Inr (Sorted, s'))
       \<longleftrightarrow> fst (ensureConnected w s) \<and> capture w \<and> 0 < httpCode w
          \<and> (\<exists>l. response w = Document (Some l) \<and> l \<in> set wasteLabels)"
    "(\<exists>f. handleWasteDetected w s = Inl f)
       \<longleftrightarrow> fst (ensureConnected w s) \<and> capture w \<and> 0 < httpCode w
          \<and> response w = Document None"
    by blast+
qed

lemma exampleWorld_fields [simp]:
  "linkUp (exampleWorld code r) n" "capture (exampleWorld code r)"
  "httpCode (exampleWorld code r) = code" "response (exampleWorld code r) = r"
  by (simp_all add: exampleWorld_def linkAlwaysUp_def)

lemma exampleWorld_connected [simp]:
  "ensureConnected (exampleWorld code r) s = (True, s\<lparr>statusReads := Suc (statusReads s)\<rparr>)"
  by (simp add: ensureConnected_up)

text \<open>
  Claim C2. A cycle ends in \<open>NetworkError\<close> exactly when the link is up, a frame was
  captured and the HTTP result is not positive; in \<open>ParseError\<close> exactly when the
  result is positive and the body does not deserialize; in \<open>UnknownLabel\<close> exactly
  when the decoded label is in no table entry. A cycle that ends in one of the three has
  made none of the events of the sort routine (its log line, stepper and trapdoor
  commands, the write of \<open>currentSlot\<close>) and leaves \<open>currentSlot\<close> as it was.
\<close>

theorem failures_leave_slot_unchanged:
  "((\<exists>s'. handleWasteDetected w s = Inr (NetworkError, s'))
      \<longleftrightarrow> fst (ensureConnected w s) \<and> capture w \<and> httpCode w \<le> 0)
   \<and> ((\<exists>s'. handleWasteDetected w s = Inr (ParseError, s'))
      \<longleftrightarrow> fst (ensureConnected w s) \<and> capture w \<and> 0 < httpCode w \<and> response w = Malformed)
   \<and> ((\<exists>s'. handleWasteDetected w s = Inr (UnknownLabel, s'))
      \<longleftrightarrow> fst (ensureConnected w s) \<and> capture w \<and> 0 < httpCode w
          \<and> (\<exists>l. response w = Document (Some l) \<and> l \<notin> set wasteLabels))
   \<and> (handleWasteDetected w s = Inr (oc, s') \<and> oc \<in> {NetworkError, ParseError, UnknownLabel}
        \<longrightarrow> currentSlot s' = currentSlot s
            \<and> list_all (\<lambda>e. \<not> sortEvent e) (newEvents s s'))"
proof -
  have "currentSlot s' = currentSlot s \<and> list_all (\<lambda>e. \<not> sortEvent e) (newEvents s s')"
    if "handleWasteDetected w s = Inr (oc, s')" and "oc \<in> {NetworkError, ParseError, UnknownLabel}"
  proof -
    from handle_frame [OF that(1)] obtain es where
      "trace s' = trace s @ es"
      "oc \<noteq> Sorted \<longrightarrow> currentSlot s' = currentSlot s \<and> list_all (\<lambda>e. \<not> sortEvent e) es"
      by blast
    moreover from that(2) have "oc \<noteq> Sorted"
      by auto
    ultimately show ?thesis
      by (simp add: newEvents_append)
  qed
  then show ?thesis
    by (simp only: handle_outcome) blast
qed

theorem failures_leave_slot_unchanged_witness:
  "handleWasteDetected (exampleWorld (- 1) Malformed) (boot\<lparr>currentSlot := 2\<rparr>)
     = Inr (NetworkError,
            \<lparr>currentSlot = 2, lastIrTime = 0, clock = 0, statusReads = 1,
               trace = [CameraFbGet, HttpBegin, HttpAddHeader, HttpPost,
                        Serial MsgHttpPostFailed, HttpEnd, CameraFbReturn]\<rparr>)
   \<and> handleWasteDetected (exampleWorld 200 Malformed) (boot\<lparr>currentSlot := 2\<rparr>)
     = Inr (ParseError,
            \<lparr>currentSlot = 2, lastIrTime = 0, clock = 0, statusReads = 1,
               trace = [CameraFbGet, HttpBegin, HttpAddHeader, HttpPost, HttpGetString,
                        Serial MsgHttpResponse, Serial MsgJsonParseFailed]\<rparr>)
   \<and> handleWasteDetected (exampleWorld 200 (Document (Some ''Battery''))) (boot\<lparr>currentSlot := 2\<rparr>)
     = Inr (UnknownLabel,
            \<lparr>currentSlot = 2, lastIrTime = 0, clock = 0, statusReads = 1,
               trace = [CameraFbGet, HttpBegin, HttpAddHeader, HttpPost, HttpGetString,
                        Serial MsgHttpResponse, Serial MsgUnknownLabel, HttpEnd,
                        CameraFbReturn]\<rparr>)
   \<and> list_all (\<lambda>e. \<not> sortEvent e)
        (newEvents (boot\<lparr>currentSlot := 2\<rparr>)
           \<lparr>currentSlot = 2, lastIrTime = 0, clock = 0, statusReads = 1,
              trace = [CameraFbGet, HttpBegin, HttpAddHeader, HttpPost,
                       Serial MsgHttpPostFailed, HttpEnd, CameraFbReturn]\<rparr>)"
proof -
  let ?s = "boot\<lparr>currentSlot := 2\<rparr>"
  let ?net = "\<lparr>currentSlot = 2, lastIrTime = 0, clock = 0, statusReads = 1,
               trace = [CameraFbGet, HttpBegin, HttpAddHeader, HttpPost,
                        Serial MsgHttpPostFailed, HttpEnd, CameraFbReturn]\<rparr>"
  have net: "handleWasteDetected (exampleWorld (- 1) Malformed) ?s = Inr (NetworkError, ?net)"
    by (simp add: handle_network boot_def releaseFrame_def emit_def)
  have parse: "handleWasteDetected (exampleWorld 200 Malformed) ?s
     = Inr (ParseError,
            \<lparr>currentSlot = 2, lastIrTime = 0, clock = 0, statusReads = 1,
               trace = [CameraFbGet, HttpBegin, HttpAddHeader, HttpPost, HttpGetString,
                        Serial MsgHttpResponse, Serial MsgJsonParseFailed]\<rparr>)"
    by (simp add: handle_parse boot_def releaseFrame_def emit_def)
  have unknown: "handleWasteDetected (exampleWorld 200 (Document (Some ''Battery''))) ?s
     = Inr (UnknownLabel,
            \<lparr>currentSlot = 2, lastIrTime = 0, clock = 0, statusReads = 1,
               trace = [CameraFbGet, HttpBegin, HttpAddHeader, HttpPost, HttpGetString,
                        Serial MsgHttpResponse, Serial MsgUnknownLabel, HttpEnd,
                        CameraFbReturn]\<rparr>)"
    by (simp add: handle_unknown wasteLabels_def boot_def releaseFrame_def emit_def)
  from failures_leave_slot_unchanged [of "exampleWorld (- 1) Malformed" ?s NetworkError ?net] net
  have "list_all (\<lambda>e. \<not> sortEvent e) (newEvents ?s ?net)"
    by simp
  with net parse unknown show ?thesis
    by simp
qed

lemma wasteLabels_distinct: "distinct wasteLabels" "int (length wasteLabels) = wasteCategories"
  by (simp_all add: wasteLabels_def wasteCategories_def)

lemma table_position_unique:
  assumes "0 \<le> i" "i < wasteCategories" "0 \<le> j" "j < wasteCategories"
    and "wasteLabels ! nat i = wasteLabels ! nat j"
  shows "i = j"
proof -
  have "nat i < length wasteLabels" "nat j < length wasteLabels"
    using assms(1-4) wasteLabels_distinct(2) by linarith+
  with assms(5) have "nat i = nat j"
    using wasteLabels_distinct(1) by (simp add: nth_eq_iff_index_eq)
  with assms(1,3) show ?thesis
    by simp
qed

text \<open>
  Claim C6. The decoded label is compared with the table entries by exact, case-sensitive
  string equality: a hit is a position of the table that holds exactly that string. A
  label of the table is mapped to one index in \<open>[0, N)\<close>, its only position in the
  table. A label equal to no entry gives \<open>-1\<close>, and the cycle ends as \<open>UnknownLabel\<close>:
  after the request it only logs and releases the frame, with no sort and
  \<open>currentSlot\<close> unchanged.
\<close>

theorem label_matching_exact:
  "(labelLoop (Some l) 0 = Inr i \<and> i \<noteq> - 1 \<longrightarrow>
      0 \<le> i \<and> i < wasteCategories \<and> wasteLabels ! nat i = l)
   \<and> (l \<in> set wasteLabels \<longrightarrow>
        (\<exists>i. labelLoop (Some l) 0 = Inr i \<and> 0 \<le> i \<and> i < wasteCategories
             \<and> wasteLabels ! nat i = l
             \<and> (\<forall>j. 0 \<le> j \<and> j < wasteCategories \<and> wasteLabels ! nat j = l \<longrightarrow> j = i)))
   \<and> (l \<notin> set wasteLabels \<longrightarrow>
        labelLoop (Some l) 0 = Inr (- 1)
        \<and> (fst (ensureConnected w s) \<and> capture w \<and> 0 < httpCode w
             \<and> response w = Document (Some l) \<longrightarrow>
              (\<exists>s'. handleWasteDetected w s = Inr (UnknownLabel, s')
                  \<and> newEvents (snd (ensureConnected w s)) s' =
                      [CameraFbGet, HttpBegin, HttpAddHeader, HttpPost, HttpGetString,
                       Serial MsgHttpResponse, Serial MsgUnknownLabel, HttpEnd, CameraFbReturn]
                  \<and> currentSlot s' = currentSlot s)))
   \<and> labelLoop (Some ''Metal'') 0 = Inr 3
   \<and> labelLoop (Some ''metal'') 0 = Inr (- 1)
   \<and> labelLoop (Some ''Metal '') 0 = Inr (- 1)"
proof (intro conjI impI)
  assume a: "labelLoop (Some l) 0 = Inr i \<and> i \<noteq> - 1"
  with labelLoop_range [of "Some l" i]
  show "0 \<le> i" "i < wasteCategories" "wasteLabels ! nat i = l"
    by auto
next
  assume "l \<in> set wasteLabels"
  from labelLoop_known [OF this] obtain i where
    i: "labelLoop (Some l) 0 = Inr i" "0 \<le> i" "i < wasteCategories" "wasteLabels ! nat i = l"
    by blast
  then have "\<forall>j. 0 \<le> j \<and> j < wasteCategories \<and> wasteLabels ! nat j = l \<longrightarrow> j = i"
    using table_position_unique by blast
  with i show "\<exists>i. labelLoop (Some l) 0 = Inr i \<and> 0 \<le> i \<and> i < wasteCategories
             \<and> wasteLabels ! nat i = l
             \<and> (\<forall>j. 0 \<le> j \<and> j < wasteCategories \<and> wasteLabels ! nat j = l \<longrightarrow> j = i)"
    by blast
next
  assume "l \<notin> set wasteLabels"
  then show "labelLoop (Some l) 0 = Inr (- 1)"
    by (rule labelLoop_unknown)
next
  assume l: "l \<notin> set wasteLabels"
    and c: "fst (ensureConnected w s) \<and> capture w \<and> 0 < httpCode w
             \<and> response w = Document (Some l)"
  have "currentSlot (snd (ensureConnected w s)) = currentSlot s"
    by (simp add: ensureConnected_frame)
  with c l show "\<exists>s'. handleWasteDetected w s = Inr (UnknownLabel, s')
                  \<and> newEvents (snd (ensureConnected w s)) s' =
                      [CameraFbGet, HttpBegin, HttpAddHeader, HttpPost, HttpGetString,
                       Serial MsgHttpResponse, Serial MsgUnknownLabel, HttpEnd, CameraFbReturn]
                  \<and> currentSlot s' = currentSlot s"
    by (simp add: handle_unknown newEvents_def)
qed (simp_all add: labelLoop_table)

theorem label_matching_exact_witness:
  "''Paper'' \<in> set wasteLabels
   \<and> labelLoop (Some ''Paper'') 0 = Inr 1
   \<and> wasteLabels ! nat 1 = ''Paper''
   \<and> ''Battery'' \<notin> set wasteLabels
   \<and> labelLoop (Some ''Battery'') 0 = Inr (- 1)
   \<and> (\<exists>s'. handleWasteDetected (exampleWorld 200 (Document (Some ''Battery''))) boot
              = Inr (UnknownLabel, s')
          \<and> newEvents (snd (ensureConnected (exampleWorld 200 (Document (Some ''Battery''))) boot)) s' =
              [CameraFbGet, HttpBegin, HttpAddHeader, HttpPost, HttpGetString,
               Serial MsgHttpResponse, Serial MsgUnknownLabel, HttpEnd, CameraFbReturn]
          \<and> currentSlot s' = currentSlot boot)"
proof -
  have paper: "''Paper'' \<in> set wasteLabels" and battery: "''Battery'' \<notin> set wasteLabels"
    by (simp_all add: wasteLabels_def)
  have hit: "labelLoop (Some ''Paper'') 0 = Inr 1 \<and> (1::int) \<noteq> - 1"
    by (simp add: labelLoop_table)
  from label_matching_exact [of "''Paper''" 1] hit
  have "wasteLabels ! nat 1 = ''Paper''"
    by simp
  with paper battery hit
    label_matching_exact [of "''Battery''" _ "exampleWorld 200 (Document (Some ''Battery''))" boot]
  show ?thesis
    by simp
qed

text \<open>
  Claim C9. With a string-valued label the matching loop is defined: it returns an index
  or \<open>-1\<close>. With a null label (a document without a string \<^verbatim>\<open>label\<close> member)
  every iteration of the loop calls \<^verbatim>\<open>strcmp\<close> on the null pointer, so a cycle whose
  response parses but has no such member is undefined; and this is the only way a cycle
  becomes undefined.
\<close>

theorem null_label_faults:
  "(\<exists>i. labelLoop (Some l) 0 = Inr i)
   \<and> (0 \<le> i \<and> i < wasteCategories \<longrightarrow> labelLoop None i = Inl NullStrcmp)
   \<and> (fst (ensureConnected w s) \<and> capture w \<and> 0 < httpCode w \<and> response w = Document None
        \<longrightarrow> handleWasteDetected w s = Inl NullStrcmp)
   \<and> (handleWasteDetected w s = Inl f \<longrightarrow>
        fst (ensureConnected w s) \<and> capture w \<and> 0 < httpCode w \<and> response w = Document None)"
proof -
  have "handleWasteDetected w s = Inl f \<longrightarrow>
        fst (ensureConnected w s) \<and> capture w \<and> 0 < httpCode w \<and> response w = Document None"
    using handle_outcome(7) [of w s] by blast
  then show ?thesis
    by (simp add: labelLoop_table labelLoop_null handle_null)
qed

theorem null_label_faults_witness:
  "labelLoop None 0 = Inl NullStrcmp
   \<and> labelLoop None 4 = Inl NullStrcmp
   \<and> handleWasteDetected (exampleWorld 200 (Document None)) boot = Inl NullStrcmp
   \<and> response (exampleWorld 200 (Document None)) = Document None"
proof -
  let ?w = "exampleWorld 200 (Document None)"
  have fault: "handleWasteDetected ?w boot = Inl NullStrcmp"
    using null_label_faults [of "''x''" 0 ?w boot] by simp
  from null_label_faults [of "''x''" 0 ?w boot NullStrcmp] null_label_faults [of "''x''" 4 ?w boot]
    fault
  show ?thesis
    by (simp add: wasteCategories_def)
qed

subsection \<open>Start-up and the detection loop\<close>

lemma idle_fields [simp]:
  "currentSlot (idle d s) = currentSlot s" "trace (idle d s) = trace s"
  "lastIrTime (idle d s) = lastIrTime s" "clock (idle d s) = clock s + d"
  by (simp_all add: idle_def)

lemma setupWait_frame:
  "currentSlot (setupWait w start s) = currentSlot s
   \<and> (\<exists>es. trace (setupWait w start s) = trace s @ es \<and> list_all slotWriteOk es)"
proof (induction w start s rule: setupWait.induct)
  case (1 w start s)
  let ?s1 = "s\<lparr>statusReads := Suc (statusReads s)\<rparr>"
  show ?case
  proof (cases "\<not> linkUp w (statusReads s) \<and> millis s - start < 10000")
    case False
    then have "setupWait w start s = ?s1"
      by (subst setupWait.simps) auto
    then show ?thesis
      by simp
  next
    case True
    then have unfold: "setupWait w start s
                       = setupWait w start (delay 500 (emit (Serial MsgDot) ?s1))"
      by (subst setupWait.simps) simp
    have st: "(linkUp w (statusReads s), ?s1) = WiFi_status w s"
      by simp
    from True have cond: "\<not> linkUp w (statusReads s) \<and> millis ?s1 - start < 10000"
      by simp
    from "1.IH" [OF st cond] show ?thesis
      unfolding unfold by auto
  qed
qed

lemma sketch_setup_inv:
  assumes "list_all slotWriteOk (trace s)"
  shows "currentSlot (sketch_setup w s) = 0 \<and> slotInv (sketch_setup w s)"
proof -
  let ?s1 = "emit (Serial MsgConnecting) (emit WiFiSetSleep (emit WiFiBegin (emit WiFiMode s)))"
  from setupWait_frame [of w "millis ?s1" ?s1] obtain es where
    "trace (setupWait w (millis ?s1) ?s1) = trace ?s1 @ es" "list_all slotWriteOk es"
    by blast
  with assms show ?thesis
    by (simp add: sketch_setup_def Let_def slotInv_def beepWiFiConnected_def beepWiFiFailed_def
        beep_1 beep_3 wasteCategories_def)
qed

lemma loop_high: "loop w HIGH s = Inr s"
  by (simp add: loop_def)

lemma loop_suppress: "\<not> irDebounceMs < millis s - lastIrTime s \<Longrightarrow> loop w LOW s = Inr s"
  by (simp add: loop_def)

lemma loop_accept:
  "irDebounceMs < millis s - lastIrTime s \<Longrightarrow>
     loop w LOW s =
       (case handleWasteDetected w
               (beep 2 100 50 (emit (Serial MsgIrDetected) (s\<lparr>lastIrTime := millis s\<rparr>))) of
          Inl f \<Rightarrow> Inl f
        | Inr (oc, s') \<Rightarrow> Inr s')"
  by (simp add: loop_def)

lemma loop_inv:
  assumes "slotInv s" and "loop w irVal s = Inr s'"
  shows "slotInv s'"
proof (cases "irVal = LOW \<and> irDebounceMs < millis s - lastIrTime s")
  case False
  with assms show ?thesis
    by (cases irVal) (auto simp: loop_high loop_suppress)
next
  case True
  let ?d = "beep 2 100 50 (emit (Serial MsgIrDetected) (s\<lparr>lastIrTime := millis s\<rparr>))"
  from True assms(2) obtain oc where h: "handleWasteDetected w ?d = Inr (oc, s')"
    by (auto simp: loop_accept split: sum.splits)
  from handle_frame [OF h] obtain es where
    es: "trace s' = trace ?d @ es"
        "oc \<noteq> Sorted \<longrightarrow> currentSlot s' = currentSlot ?d"
        "oc = Sorted \<longrightarrow> 0 \<le> currentSlot s' \<and> currentSlot s' < wasteCategories"
        "list_all slotWriteOk es"
    by blast
  have d: "currentSlot ?d = currentSlot s" "list_all slotWriteOk (trace ?d)"
    using assms(1) by (simp_all add: beep_2 slotInv_def)
  show ?thesis
    using es d assms(1) by (cases "oc = Sorted") (simp_all add: slotInv_def)
qed

lemma run_inv: "slotInv s \<Longrightarrow> run ins s = Inr s' \<Longrightarrow> slotInv s'"
proof (induction ins arbitrary: s)
  case Nil
  then show ?case by simp
next
  case (Cons x ins)
  obtain d irVal w where x: "x = (d, irVal, w)"
    by (cases x)
  from Cons.prems(2) obtain s1 where
    s1: "loop w irVal (idle d s) = Inr s1" "run ins s1 = Inr s'"
    by (auto simp: x split: sum.splits)
  have "slotInv (idle d s)"
    using Cons.prems(1) by (simp add: slotInv_def)
  from loop_inv [OF this s1(1)] Cons.IH s1(2) show ?case
    by blast
qed

subsection \<open>Time\<close>

lemma millis_elapsed:
  assumes "clock s \<le> clock s'" and "clock s' - clock s < 2 ^ 32"
  shows "unat (millis s' - millis s) = clock s' - clock s"
proof -
  have "millis s' - millis s = (of_nat (clock s' - clock s) :: 32 word)"
    using assms(1) by (simp add: millis_def of_nat_diff)
  then show ?thesis
    using assms(2) by (simp add: unat_of_nat)
qed

lemma clock_ensureConnected: "clock s \<le> clock (snd (ensureConnected w s))"
proof (cases "linkUp w (statusReads s)")
  case True
  then show ?thesis
    by (simp add: ensureConnected_up)
next
  case False
  let ?s2 = "emit WiFiReconnect (emit WiFiDisconnect (emit (Serial MsgWiFiDisconnected)
               (s\<lparr>statusReads := Suc (statusReads s)\<rparr>)))"
  obtain k where "clock (reconnectWait w (millis ?s2) ?s2) = clock ?s2 + 200 * k"
    using reconnectWait_shape [of w "millis ?s2" ?s2] by blast
  with False show ?thesis
    by (simp add: ensureConnected_def Let_def beepWiFiFailed_def beepWiFiConnected_def
        beep_1 beep_3)
qed

lemma clock_sortWaste: "clock s \<le> clock (sortWaste label s)"
  by (simp add: sortWaste_def Let_def beep_1 beep_3)

lemma clock_handle:
  assumes "handleWasteDetected w s = Inr (oc, s')"
  shows "clock s \<le> clock s'"
proof -
  note c = clock_ensureConnected [of s w]
  consider (timeout) "\<not> fst (ensureConnected w s)"
    | (capture) "fst (ensureConnected w s)" "\<not> capture w"
    | (network) "fst (ensureConnected w s)" "capture w" "httpCode w \<le> 0"
    | (parse) "fst (ensureConnected w s)" "capture w" "0 < httpCode w" "response w = Malformed"
    | (label) p where "fst (ensureConnected w s)" "capture w" "0 < httpCode w"
        "response w = Document p"
    by (cases "response w") force+
  then show ?thesis
  proof cases
    case timeout
    with assms c show ?thesis by (auto simp: handle_timeout)
  next
    case capture
    with assms c show ?thesis by (auto simp: handle_capture)
  next
    case network
    with assms c show ?thesis by (auto simp: handle_network releaseFrame_def)
  next
    case parse
    with assms c show ?thesis by (auto simp: handle_parse)
  next
    case label
    let ?s4 = "emit (Serial MsgMappedLabel) (emit (Serial MsgHttpResponse)
                 (emit HttpGetString (emit HttpPost (emit HttpAddHeader (emit HttpBegin
                   (emit CameraFbGet (snd (ensureConnected w s))))))))"
    from assms obtain i where i: "labelLoop p 0 = Inr i"
      by (auto simp: handle_label [OF label] split: sum.splits)
    have "clock ?s4 \<le> clock (sortWaste i ?s4)"
      by (rule clock_sortWaste)
    with assms i c show ?thesis
      by (auto simp: handle_label [OF label] releaseFrame_def split: if_splits)
  qed
qed

lemma loop_accept_frame:
  assumes "irDebounceMs < millis s - lastIrTime s" and "loop w LOW s = Inr s'"
  shows "lastIrTime s' = millis s \<and> clock s + 250 \<le> clock s'"
proof -
  let ?d = "beep 2 100 50 (emit (Serial MsgIrDetected) (s\<lparr>lastIrTime := millis s\<rparr>))"
  from assms obtain oc where h: "handleWasteDetected w ?d = Inr (oc, s')"
    by (auto simp: loop_accept split: sum.splits)
  from handle_frame [OF h] have "lastIrTime s' = lastIrTime ?d"
    by blast
  moreover have "lastIrTime ?d = millis s" "clock ?d = clock s + 250"
    by (simp_all add: beep_2)
  moreover note clock_handle [OF h]
  ultimately show ?thesis
    by simp
qed

subsection \<open>Example runs\<close>

lemma example_setup:
  "sketch_setup (exampleWorld 200 Malformed) boot =
     \<lparr>currentSlot = 0, lastIrTime = 0, clock = 600, statusReads = 2,
        trace = [WiFiMode, WiFiBegin, WiFiSetSleep, Serial MsgConnecting, Serial MsgNewline,
                 Serial MsgWiFiConnected, Buzzer HIGH, Delay 300, Buzzer LOW, Delay 150,
                 Buzzer HIGH, Delay 150, Buzzer LOW, CarouselSetSpeed 15, TrapdoorSetPeriod,
                 TrapdoorAttach, PinModeIr, TrapdoorWrite 0, PinModeBuzzer, Buzzer LOW,
                 SlotWrite 0, Serial MsgSetupComplete]\<rparr>"
  by (simp add: sketch_setup_def Let_def boot_def setupWait.simps beepWiFiConnected_def beep_1
      emit_def delay_def setCurrentSlot_def stepperSpeedRPM_def servoClosedAngle_def)

lemma example_start_accepted: "irDebounceMs < millis exampleStart - lastIrTime exampleStart"
  by (simp add: exampleStart_def example_setup idle_def millis_def irDebounceMs_def)

lemma example_first: "loop (exampleWorld 200 Malformed) LOW exampleStart = Inr exampleFirst"
  by (simp add: exampleStart_def example_setup idle_def loop_def millis_def irDebounceMs_def
      beep_2 handle_parse exampleFirst_def emit_def delay_def)

lemma example_metal:
  "loop (exampleWorld 200 (Document (Some ''Metal''))) LOW exampleStart = Inr exampleAfterMetal"
  by (simp add: exampleStart_def example_setup idle_def loop_def millis_def irDebounceMs_def
      beep_2 handle_known [where i = 3] labelLoop_table sortWaste_def Let_def beep_1 beep_3
      planMove_def c_div_def wasteCategories_def stepsPerSlot_409 releaseFrame_def
      emit_def delay_def setCurrentSlot_def servoOpenAngle_def servoClosedAngle_def
      trapdoorOpenMs_def exampleAfterMetal_def)

lemma example_late:
  "millis (idle 4294967146 exampleFirst) - millis exampleStart = 100"
  "millis (idle 100 exampleFirst) - millis exampleStart = 350"
  by (simp_all add: exampleFirst_def exampleStart_def example_setup idle_def millis_def)

text \<open>
  Claim C8. \<open>currentSlot\<close> is 0 at boot and after \<open>sketch_setup\<close>; an index the
  matching loop finds is in \<open>[0, N)\<close>; and after every number of calls of
  \<^verbatim>\<open>loop\<close>, whatever the sensor, the link, the camera and the server do, the slot
  is in \<open>[0, N)\<close> and so is every value that was ever written to it. (A run that has
  met undefined behaviour has no state to speak of.)
\<close>

theorem currentSlot_in_range:
  "currentSlot boot = 0
   \<and> currentSlot (sketch_setup w0 boot) = 0
   \<and> (labelLoop p 0 = Inr i \<and> i \<noteq> - 1 \<longrightarrow> 0 \<le> i \<and> i < wasteCategories)
   \<and> (run ins (sketch_setup w0 boot) = Inr s \<longrightarrow>
        0 \<le> currentSlot s \<and> currentSlot s < wasteCategories
        \<and> list_all slotWriteOk (trace s))"
proof -
  have start: "currentSlot (sketch_setup w0 boot) = 0 \<and> slotInv (sketch_setup w0 boot)"
    by (rule sketch_setup_inv) (simp add: boot_def)
  have "slotInv s" if "run ins (sketch_setup w0 boot) = Inr s"
    using run_inv start that by blast
  moreover have "labelLoop p 0 = Inr i \<and> i \<noteq> - 1 \<longrightarrow> 0 \<le> i \<and> i < wasteCategories"
    using labelLoop_range [of p i] by auto
  ultimately show ?thesis
    using start by (auto simp: slotInv_def boot_def)
qed

theorem currentSlot_in_range_witness:
  "labelLoop (Some ''Metal'') 0 = Inr 3
   \<and> run [(400, LOW, exampleWorld 200 (Document (Some ''Metal'')))]
          (sketch_setup (exampleWorld 200 Malformed) boot) = Inr exampleAfterMetal
   \<and> currentSlot exampleAfterMetal = 3
   \<and> 0 \<le> currentSlot exampleAfterMetal \<and> currentSlot exampleAfterMetal < wasteCategories
   \<and> list_all slotWriteOk (trace exampleAfterMetal)"
proof -
  have hit: "labelLoop (Some ''Metal'') 0 = Inr 3"
    by (simp add: labelLoop_table)
  have r: "run [(400, LOW, exampleWorld 200 (Document (Some ''Metal'')))]
             (sketch_setup (exampleWorld 200 Malformed) boot) = Inr exampleAfterMetal"
    using example_metal by (simp add: exampleStart_def)
  from currentSlot_in_range
         [of "exampleWorld 200 Malformed" "Some ''Metal''" 3
             "[(400, LOW, exampleWorld 200 (Document (Some ''Metal'')))]" exampleAfterMetal]
       hit r
  show ?thesis
    by (simp add: exampleAfterMetal_def)
qed

text \<open>
  Claim C4, amended. Take a detection that is accepted at time stamp \<open>t1\<close> and whose
  cycle returns, and the next detection, at time stamp \<open>t2\<close>, with no accepted
  detection in between. Time stamps are the 32-bit values of \<^verbatim>\<open>millis()\<close> and
  their distance is \<open>t2 - t1\<close> modulo \<open>2^32\<close>, as the sketch computes it. The first
  detection records \<open>t1\<close>; if the distance is below the debounce interval the second
  detection changes nothing and starts no cycle; if it is above, the second detection
  runs one cycle (after its own beep). When more than 200 ms and less than \<open>2^32\<close> ms
  have really passed, the distance is above the interval, so the second detection is
  accepted. The cycle of an accepted detection blocks for at least 250 ms.
\<close>

theorem debounce_modulo_wraparound:
  assumes "irDebounceMs < millis s0 - lastIrTime s0" and "loop w1 LOW s0 = Inr s1"
  shows "lastIrTime s1 = millis s0
         \<and> clock s0 + 250 \<le> clock s1
         \<and> (millis (idle d s1) - millis s0 < irDebounceMs \<longrightarrow>
              loop w2 LOW (idle d s1) = Inr (idle d s1))
         \<and> (irDebounceMs < millis (idle d s1) - millis s0 \<longrightarrow>
              loop w2 LOW (idle d s1) =
                (case handleWasteDetected w2
                        (beep 2 100 50 (emit (Serial MsgIrDetected)
                           ((idle d s1)\<lparr>lastIrTime := millis (idle d s1)\<rparr>))) of
                   Inl f \<Rightarrow> Inl f
                 | Inr (oc, s') \<Rightarrow> Inr s'))
         \<and> (200 < clock (idle d s1) - clock s0 \<and> clock (idle d s1) - clock s0 < 2 ^ 32 \<longrightarrow>
              irDebounceMs < millis (idle d s1) - millis s0)"
proof -
  from loop_accept_frame [OF assms]
  have f: "lastIrTime s1 = millis s0" "clock s0 + 250 \<le> clock s1"
    by simp_all
  then have mono: "clock s0 \<le> clock (idle d s1)"
    by simp
  have "loop w2 LOW (idle d s1) = Inr (idle d s1)"
    if "millis (idle d s1) - millis s0 < irDebounceMs"
    using that by (intro loop_suppress) (simp add: f(1))
  moreover have "loop w2 LOW (idle d s1) =
                (case handleWasteDetected w2
                        (beep 2 100 50 (emit (Serial MsgIrDetected)
                           ((idle d s1)\<lparr>lastIrTime := millis (idle d s1)\<rparr>))) of
                   Inl f \<Rightarrow> Inl f
                 | Inr (oc, s') \<Rightarrow> Inr s')"
    if "irDebounceMs < millis (idle d s1) - millis s0"
    using that by (intro loop_accept) (simp add: f(1))
  moreover have "irDebounceMs < millis (idle d s1) - millis s0"
    if "200 < clock (idle d s1) - clock s0 \<and> clock (idle d s1) - clock s0 < 2 ^ 32"
  proof -
    from that mono have "unat (millis (idle d s1) - millis s0) = clock (idle d s1) - clock s0"
      by (intro millis_elapsed) simp_all
    with that show ?thesis
      by (simp add: word_less_nat_alt irDebounceMs_def)
  qed
  ultimately show ?thesis
    using f by blast
qed

theorem debounce_modulo_wraparound_witness:
  "irDebounceMs < millis exampleStart - lastIrTime exampleStart
   \<and> loop (exampleWorld 200 Malformed) LOW exampleStart = Inr exampleFirst
   \<and> lastIrTime exampleFirst = millis exampleStart
   \<and> millis (idle 4294967146 exampleFirst) - millis exampleStart < irDebounceMs
   \<and> loop (exampleWorld 200 Malformed) LOW (idle 4294967146 exampleFirst)
       = Inr (idle 4294967146 exampleFirst)
   \<and> clock (idle 100 exampleFirst) - clock exampleStart = 350
   \<and> irDebounceMs < millis (idle 100 exampleFirst) - millis exampleStart
   \<and> loop (exampleWorld 200 Malformed) LOW (idle 100 exampleFirst) =
        (case handleWasteDetected (exampleWorld 200 Malformed)
                (beep 2 100 50 (emit (Serial MsgIrDetected)
                   ((idle 100 exampleFirst)\<lparr>lastIrTime := millis (idle 100 exampleFirst)\<rparr>))) of
           Inl f \<Rightarrow> Inl f
         | Inr (oc, s') \<Rightarrow> Inr s')"
proof -
  let ?w = "exampleWorld 200 Malformed"
  have e: "clock (idle 100 exampleFirst) - clock exampleStart = 350"
    by (simp add: exampleFirst_def exampleStart_def example_setup)
  from debounce_modulo_wraparound [OF example_start_accepted example_first, of 4294967146 ?w]
    debounce_modulo_wraparound [OF example_start_accepted example_first, of 100 ?w]
    example_start_accepted example_first e
  show ?thesis
    by (simp add: example_late irDebounceMs_def)
qed

lemma wrap_start_accepted: "irDebounceMs < millis wrapStart - lastIrTime wrapStart"
  by (simp add: wrapStart_def example_setup idle_def millis_def irDebounceMs_def)

lemma wrap_first: "loop (exampleWorld 200 Malformed) LOW wrapStart = Inr wrapFirst"
  by (simp add: wrapStart_def example_setup idle_def loop_def millis_def irDebounceMs_def
      beep_2 handle_parse wrapFirst_def exampleFirst_def emit_def delay_def)

text \<open>
  The claim as it was written fails when the gap reaches \<open>2^32\<close> ms. A detection is
  accepted \<open>2^32 - 50\<close> ms after boot, at time stamp 4294967246. The next one comes
  \<open>2^32 + 100\<close> ms later, at time stamp 50: far more than 200 ms away, in real time
  and by the numbers of the two time stamps, and it is suppressed.
\<close>

theorem debounce_wraparound_counterexample:
  "irDebounceMs < millis wrapStart - lastIrTime wrapStart
   \<and> loop (exampleWorld 200 Malformed) LOW wrapStart = Inr wrapFirst
   \<and> millis wrapStart = 4294967246
   \<and> millis (idle 4294967146 wrapFirst) = 50
   \<and> clock (idle 4294967146 wrapFirst) - clock wrapStart = 4294967396
   \<and> loop (exampleWorld 200 Malformed) LOW (idle 4294967146 wrapFirst)
       = Inr (idle 4294967146 wrapFirst)"
proof -
  have "\<not> irDebounceMs
          < millis (idle 4294967146 wrapFirst) - lastIrTime (idle 4294967146 wrapFirst)"
    by (simp add: wrapFirst_def exampleFirst_def idle_def millis_def irDebounceMs_def)
  then have "loop (exampleWorld 200 Malformed) LOW (idle 4294967146 wrapFirst)
       = Inr (idle 4294967146 wrapFirst)"
    by (rule loop_suppress)
  with wrap_start_accepted wrap_first show ?thesis
    by (simp add: wrapFirst_def exampleFirst_def wrapStart_def example_setup idle_def millis_def)
qed

end
